theory Spec2Isabelle
  imports Main "HOL-Library.Word"
begin

section \<open>Stateless block validator: data model\<close>

text \<open>
  A shallow embedding of \<^verbatim>\<open>staker/stateless_block_validator.go\<close>.
  Go's \<^verbatim>\<open>uint64\<close> (and \<^verbatim>\<open>arbutil.MessageIndex\<close>, which is a
  \<^verbatim>\<open>uint64\<close>) is a 64-bit word, so \<open>+\<close> and \<open>-\<close> wrap as in Go and
  \<open><\<close>, \<open>\<le>\<close> compare unsigned. A \<^verbatim>\<open>common.Hash\<close> (32 bytes) is a
  256-bit word and a byte slice is a list of 8-bit words.

  A Go function returning \<^verbatim>\<open>(T, error)\<close> is a function into \<open>error + T\<close>,
  \<open>Inl\<close> being the error. The collaborators (inbox tracker, inbox reader, streamer,
  recorder, spawners) are interfaces in Go; here each is a record of functions,
  queried on a snapshot of the collaborator. An error a collaborator returns is
  identified with its message and wrapped as \<open>External\<close> when it is passed on
  unchanged. The \<^verbatim>\<open>context.Context\<close> arguments and logging are left out.
\<close>

type_synonym uint64 = "64 word"
type_synonym MessageIndex = uint64
type_synonym Hash = "256 word"
type_synonym bytes = "8 word list"
type_synonym WasmTarget = string

text \<open>
  \<^verbatim>\<open>arbutil.PreimageType\<close> is a \<^verbatim>\<open>uint8\<close>. A Go map is a partial function;
  a \<^verbatim>\<open>nil\<close> inner map reads like the empty one and is identified with it.
  \<^verbatim>\<open>daprovider.PreimagesMap\<close> is the same type as
  \<^verbatim>\<open>map[arbutil.PreimageType]map[common.Hash][]byte\<close>.
\<close>

type_synonym PreimageType = "8 word"
type_synonym PreimagesMap = "PreimageType \<rightharpoonup> (Hash \<rightharpoonup> bytes)"

text \<open>
  \<^verbatim>\<open>state.UserWasms\<close> maps a code hash to the compiled code of each target.
  \<^verbatim>\<open>ToInput\<close> ranges over it and returns from inside the loop, so it is an
  association list, whose order stands for the order in which Go visits the keys;
  the keys of a Go map are distinct.
\<close>

type_synonym UserWasms = "(Hash \<times> (WasmTarget \<rightharpoonup> bytes)) list"

datatype ValidationEntryStage = Empty | ReadyForRecord | Ready

text \<open>
  The errors of the file, one constructor for each \<^verbatim>\<open>errors.New\<close> and
  \<^verbatim>\<open>fmt.Errorf\<close>, carrying the values the format string prints (in that
  order); \<^verbatim>\<open>%w\<close> wraps the inner error. \<open>Panic\<close> is a run-time panic of Go
  (a \<^verbatim>\<open>nil\<close> pointer dereferenced, an assignment into a \<^verbatim>\<open>nil\<close> map).
\<close>

datatype error =
    External string
  | Panic string
  | BatchHasMsgCount uint64 MessageIndex MessageIndex
      \<comment> \<open>"batch %d has msgCount %d, failed getting for %d"\<close>
  | BatchStartsFrom uint64 MessageIndex MessageIndex
      \<comment> \<open>"batch %d starts from %d, failed getting for %d"\<close>
  | NoInitialState
      \<comment> \<open>"no initial state for count==0"\<close>
  | BatchNotFoundOnL1
      \<comment> \<open>"batch not found on L1 yet"\<close>
  | NonReadyEntry
      \<comment> \<open>"cannot create input from non-ready entry"\<close>
  | StylusSupportRequired
      \<comment> \<open>"stylus support is required"\<close>
  | StylusArchNotSupported WasmTarget
      \<comment> \<open>"stylusArch not supported by block validator: %v"\<close>
  | FullBatchInfoNil
      \<comment> \<open>"fullbatchInfo cannot be nil"\<close>
  | WrongBatch uint64 uint64
      \<comment> \<open>"got wrong batch expected: %d got: %d"\<close>
  | IllegalDelayedMessage uint64 uint64
      \<comment> \<open>"illegal validation entry delayedMessage %d, previous %d"\<close>
  | PostedBatchNotFound uint64
      \<comment> \<open>"batch not found: %d"\<close>
  | BatchNotFound uint64
      \<comment> \<open>"batch %d not found"\<close>
  | ShouldBeReadyForRecord ValidationEntryStage
      \<comment> \<open>"validation entry should be ReadyForRecord, is: %v"\<close>
  | RecordingFailed MessageIndex Hash Hash
      \<comment> \<open>"recording failed: pos %d, hash expected %v, got %v"\<close>
  | DelayedMsgReadFailed error
      \<comment> \<open>"error while trying to read delayed msg for proving: %w"\<close>
  | FailedCalculatingPosition error
      \<comment> \<open>"failed calculating position for validation: %w"\<close>
  | ModuleRootNotSupported Hash
      \<comment> \<open>"validation with WasmModuleRoot %v not supported by node"\<close>

text \<open>
  Several structs share field names (\<^verbatim>\<open>Number\<close>, \<^verbatim>\<open>BlockHash\<close>,
  \<^verbatim>\<open>PosInBatch\<close>, \<^verbatim>\<open>Preimages\<close>, ...). The records keep the names of the
  source; a shared name is written with its record, as in
  \<open>GoGlobalState.PosInBatch\<close>.
\<close>

record GlobalStatePosition =
  BatchNumber :: uint64
  PosInBatch :: uint64

record GoGlobalState =
  BlockHash :: Hash
  SendRoot :: Hash
  Batch :: uint64
  PosInBatch :: uint64

record MessageResult =
  BlockHash :: Hash
  SendRoot :: Hash

record BatchInfo =
  Number :: uint64
  Data :: bytes

record FullBatchInfo =
  Number :: uint64
  PostedData :: bytes
  MsgCount :: MessageIndex
  Preimages :: PreimagesMap

text \<open>
  Modelled from the spec: \<^verbatim>\<open>arbostypes.L1IncomingMessage\<close> and its method
  \<^verbatim>\<open>PastBatchesRequired\<close> are not under src/. The specification only says that
  the method gives the referenced historical batch numbers, or fails; the record
  carries what the method returns for this message.
\<close>

record L1IncomingMessage =
  L2msg :: bytes
  PastBatchesRequired :: "string + uint64 list"

record MessageWithMetadata =
  Message :: L1IncomingMessage
  DelayedMessagesRead :: uint64

text \<open>
  Modelled from the spec: \<^verbatim>\<open>params.ChainConfig\<close> and its method
  \<^verbatim>\<open>DebugMode\<close> are not under src/; the entry derives the debug-chain flag from
  the chain configuration, and the record carries that flag. The pointer is taken to
  be non-nil.
\<close>

record ChainConfig =
  DebugMode :: bool

text \<open>
  \<^verbatim>\<open>execution.RecordResult\<close>, as the file reads it: \<^verbatim>\<open>Preimages\<close> is a map
  that may be \<^verbatim>\<open>nil\<close> (\<open>None\<close>).
\<close>

record RecordResult =
  Pos :: MessageIndex
  BlockHash :: Hash
  Preimages :: "(Hash \<rightharpoonup> bytes) option"
  UserWasms :: UserWasms

record validationEntry =
  Stage :: ValidationEntryStage
  Pos :: MessageIndex
  Start :: GoGlobalState
  End :: GoGlobalState
  HasDelayedMsg :: bool
  DelayedMsgNr :: uint64
  ChainConfig :: ChainConfig
  msg :: "MessageWithMetadata option"
  BatchInfo :: "BatchInfo list"
  Preimages :: PreimagesMap
  UserWasms :: UserWasms
  DelayedMsg :: bytes

record ValidationInput =
  Id :: uint64
  HasDelayedMsg :: bool
  DelayedMsgNr :: uint64
  Preimages :: PreimagesMap
  UserWasms :: "WasmTarget \<rightharpoonup> (Hash \<rightharpoonup> bytes)"
  BatchInfo :: "BatchInfo list"
  DelayedMsg :: bytes
  StartState :: GoGlobalState
  DebugChain :: bool

subsection \<open>Collaborators\<close>

text \<open>
  \<^verbatim>\<open>InboxTrackerInterface\<close>. \<^verbatim>\<open>FindInboxBatchContainingMessage\<close> returns
  \<^verbatim>\<open>(uint64, bool, error)\<close>: on success the batch and whether it was found.
  \<^verbatim>\<open>GetBatchAcc\<close> and \<^verbatim>\<open>SetBlockValidator\<close> are not called in this file.
\<close>

record InboxTracker =
  GetDelayedMessageBytes :: "uint64 \<Rightarrow> string + bytes"
  GetBatchMessageCount :: "uint64 \<Rightarrow> string + MessageIndex"
  GetBatchCount :: "string + uint64"
  FindInboxBatchContainingMessage :: "MessageIndex \<Rightarrow> string + (uint64 \<times> bool)"

record TransactionStreamer =
  GetMessage :: "MessageIndex \<Rightarrow> string + MessageWithMetadata"
  ResultAtMessageIndex :: "MessageIndex \<Rightarrow> string + MessageResult"
  StreamerChainConfig :: ChainConfig

record InboxReader =
  GetSequencerMessageBytes :: "uint64 \<Rightarrow> string + (bytes \<times> Hash)"

record ExecutionRecorder =
  RecordBlockCreation :: "MessageIndex \<Rightarrow> MessageWithMetadata option \<Rightarrow> string + RecordResult"

text \<open>
  \<^verbatim>\<open>daprovider.Reader\<close>. \<^verbatim>\<open>RecoverPayloadFromBatch\<close> takes the batch number,
  the batch's block hash, the posted data, the preimages so far and the
  validate-sequencer-message flag, and returns the payload and the preimages recorded.
\<close>

record DAReader =
  IsValidHeaderByte :: "8 word \<Rightarrow> bool"
  RecoverPayloadFromBatch ::
    "uint64 \<Rightarrow> Hash \<Rightarrow> bytes \<Rightarrow> PreimagesMap \<Rightarrow> bool \<Rightarrow> string + (bytes \<times> PreimagesMap)"

text \<open>
  \<^verbatim>\<open>validator.ValidationRun\<close>: \<^verbatim>\<open>Await\<close> returns a global state and an error
  (\<open>None\<close> for \<^verbatim>\<open>nil\<close>). \<^verbatim>\<open>Cancel\<close> has no result and is left out.
\<close>

record ValidationRun =
  Await :: "GoGlobalState \<times> string option"

text \<open>
  An execution spawner, and the Redis validation client, which has the same shape.
  \<^verbatim>\<open>Launch\<close> returns an interface value, which may be \<^verbatim>\<open>nil\<close> (\<open>None\<close>).

  Modelled from the spec: \<^verbatim>\<open>validator.SpawnerSupportsModule\<close> is not under
  src/; the specification gives a spawner the operation
  \<open>supportsModule(moduleRoot) \<rightarrow> bool\<close>, which is the field \<open>SpawnerSupportsModule\<close>.
\<close>

record ExecutionSpawner =
  SpawnerSupportsModule :: "Hash \<Rightarrow> bool"
  StylusArchs :: "WasmTarget list"
  Launch :: "ValidationInput \<Rightarrow> Hash \<Rightarrow> ValidationRun option"

text \<open>
  The fields of \<^verbatim>\<open>StatelessBlockValidator\<close> that the functions below read.
  The last two fields are the two names of package \<^verbatim>\<open>daprovider\<close> that
  \<^verbatim>\<open>readFullBatch\<close> uses and that are not under src/: the text of
  \<^verbatim>\<open>ErrSeqMsgValidation\<close> and the predicate \<^verbatim>\<open>IsDASMessageHeaderByte\<close>;
  they are parameters.
\<close>

record StatelessBlockValidator =
  execSpawners :: "ExecutionSpawner list"
  redisValidator :: "ExecutionSpawner option"
  recorder :: ExecutionRecorder
  inboxReader :: InboxReader
  inboxTracker :: InboxTracker
  streamer :: TransactionStreamer
  dapReaders :: "DAReader option list"
  ErrSeqMsgValidation :: string
  IsDASMessageHeaderByte :: "8 word \<Rightarrow> bool"

section \<open>Position algebra\<close>

text \<open>The zero value \<^verbatim>\<open>GlobalStatePosition{}\<close>.\<close>

definition GlobalStatePosition_zero :: GlobalStatePosition where
  "GlobalStatePosition_zero = \<lparr>BatchNumber = 0, GlobalStatePosition.PosInBatch = 0\<rparr>"

text \<open>
  The lookup of \<^verbatim>\<open>firstInBatch\<close> (lines 93-99): the variable is declared with
  its zero value and assigned from the tracker only when \<^verbatim>\<open>batch > 0\<close>.
\<close>

definition firstInBatch_lookup :: "InboxTracker \<Rightarrow> uint64 \<Rightarrow> error + MessageIndex" where
  "firstInBatch_lookup tracker batch =
     (if batch > 0 then
        (case GetBatchMessageCount tracker (batch - 1) of
           Inl err \<Rightarrow> Inl (External err)
         | Inr firstInBatch \<Rightarrow> Inr firstInBatch)
      else Inr 0)"

text \<open>The package-level function \<^verbatim>\<open>GlobalStatePositionsAtCount\<close> (lines 84-112).\<close>

definition GlobalStatePositionsAtCount ::
  "InboxTracker \<Rightarrow> MessageIndex \<Rightarrow> uint64 \<Rightarrow> error + (GlobalStatePosition \<times> GlobalStatePosition)" where
  "GlobalStatePositionsAtCount tracker count batch =
     (case GetBatchMessageCount tracker batch of
        Inl err \<Rightarrow> Inl (External err)
      | Inr msgCountInBatch \<Rightarrow>
          (case firstInBatch_lookup tracker batch of
             Inl err \<Rightarrow> Inl err
           | Inr firstInBatch \<Rightarrow>
               if msgCountInBatch < count then
                 Inl (BatchHasMsgCount batch (msgCountInBatch - 1) count)
               else if firstInBatch \<ge> count then
                 Inl (BatchStartsFrom batch firstInBatch count)
               else
                 let posInBatch = count - firstInBatch - 1;
                     startPos = \<lparr>BatchNumber = batch, GlobalStatePosition.PosInBatch = posInBatch\<rparr>
                 in if msgCountInBatch = count then
                      Inr (startPos,
                           \<lparr>BatchNumber = batch + 1, GlobalStatePosition.PosInBatch = 0\<rparr>)
                    else
                      Inr (startPos,
                           \<lparr>BatchNumber = batch, GlobalStatePosition.PosInBatch = posInBatch + 1\<rparr>)))"

text \<open>
  The method \<^verbatim>\<open>(*StatelessBlockValidator).GlobalStatePositionsAtCount\<close>
  (lines 417-432), which the specification calls \<open>positionsForMessage\<close>. It reads
  only the validator's inbox tracker, which is the argument here.
\<close>

definition StatelessBlockValidator_GlobalStatePositionsAtCount ::
  "InboxTracker \<Rightarrow> MessageIndex \<Rightarrow> error + (GlobalStatePosition \<times> GlobalStatePosition)" where
  "StatelessBlockValidator_GlobalStatePositionsAtCount tracker count =
     (if count = 0 then Inl NoInitialState
      else if count = 1 then
        Inr (GlobalStatePosition_zero,
             \<lparr>BatchNumber = 1, GlobalStatePosition.PosInBatch = 0\<rparr>)
      else
        (case FindInboxBatchContainingMessage tracker (count - 1) of
           Inl err \<Rightarrow> Inl (External err)
         | Inr (batch, found) \<Rightarrow>
             if \<not> found then Inl BatchNotFoundOnL1
             else GlobalStatePositionsAtCount tracker count batch))"

section \<open>Validation entry\<close>

text \<open>
  \<^verbatim>\<open>copyPreimagesInto\<close> (lines 360-369) writes into \<^verbatim>\<open>dest\<close> in place; the
  model returns the map written. For each type of \<^verbatim>\<open>source\<close> the inner map of
  \<^verbatim>\<open>dest\<close> is created if it is \<^verbatim>\<open>nil\<close>, and every entry of the source's inner
  map is stored in it, replacing an older value (\<open>++\<close>).
\<close>

definition copyPreimagesInto :: "PreimagesMap \<Rightarrow> PreimagesMap \<Rightarrow> PreimagesMap" where
  "copyPreimagesInto dest source =
     (\<lambda>piType. case source piType of
        None \<Rightarrow> dest piType
      | Some piMap \<Rightarrow>
          Some ((case dest piType of None \<Rightarrow> Map.empty | Some d \<Rightarrow> d) ++ piMap))"

text \<open>
  \<^verbatim>\<open>ToInput\<close> (lines 148-179). The first loop (lines 166-168) gives every listed
  target an empty map.
\<close>

fun ToInput_init ::
  "WasmTarget list \<Rightarrow> (WasmTarget \<rightharpoonup> (Hash \<rightharpoonup> bytes)) \<Rightarrow> (WasmTarget \<rightharpoonup> (Hash \<rightharpoonup> bytes))" where
  "ToInput_init [] res = res"
| "ToInput_init (stylusArch # rest) res = ToInput_init rest (res(stylusArch \<mapsto> Map.empty))"

text \<open>
  The inner loop (lines 170-176), for one code hash and its \<^verbatim>\<open>asmMap\<close>: every
  listed target must have code, which is stored under the target and the hash.
  Storing into the inner map of a target that has none would be an assignment into a
  \<^verbatim>\<open>nil\<close> map.
\<close>

fun ToInput_archs ::
  "Hash \<Rightarrow> (WasmTarget \<rightharpoonup> bytes) \<Rightarrow> WasmTarget list \<Rightarrow> (WasmTarget \<rightharpoonup> (Hash \<rightharpoonup> bytes))
     \<Rightarrow> error + (WasmTarget \<rightharpoonup> (Hash \<rightharpoonup> bytes))" where
  "ToInput_archs hash asmMap [] res = Inr res"
| "ToInput_archs hash asmMap (stylusArch # rest) res =
     (case asmMap stylusArch of
        Some asm \<Rightarrow>
          (case res stylusArch of
             Some m \<Rightarrow> ToInput_archs hash asmMap rest (res(stylusArch \<mapsto> m(hash \<mapsto> asm)))
           | None \<Rightarrow> Inl (Panic ''assignment to entry in nil map''))
      | None \<Rightarrow> Inl (StylusArchNotSupported stylusArch))"

text \<open>The outer loop (line 169) over the entry's user wasms.\<close>

fun ToInput_wasms ::
  "UserWasms \<Rightarrow> WasmTarget list \<Rightarrow> (WasmTarget \<rightharpoonup> (Hash \<rightharpoonup> bytes))
     \<Rightarrow> error + (WasmTarget \<rightharpoonup> (Hash \<rightharpoonup> bytes))" where
  "ToInput_wasms [] stylusArchs res = Inr res"
| "ToInput_wasms ((hash, asmMap) # rest) stylusArchs res =
     (case ToInput_archs hash asmMap stylusArchs res of
        Inl err \<Rightarrow> Inl err
      | Inr res' \<Rightarrow> ToInput_wasms rest stylusArchs res')"

definition ToInput :: "validationEntry \<Rightarrow> WasmTarget list \<Rightarrow> error + ValidationInput" where
  "ToInput e stylusArchs =
     (if Stage e \<noteq> Ready then Inl NonReadyEntry
      else if length stylusArchs = 0 \<and> length (validationEntry.UserWasms e) > 0 then
        Inl StylusSupportRequired
      else
        (case ToInput_wasms (validationEntry.UserWasms e) stylusArchs
                (ToInput_init stylusArchs Map.empty) of
           Inl err \<Rightarrow> Inl err
         | Inr wasms \<Rightarrow>
             Inr \<lparr>Id = validationEntry.Pos e,
                  ValidationInput.HasDelayedMsg = validationEntry.HasDelayedMsg e,
                  ValidationInput.DelayedMsgNr = validationEntry.DelayedMsgNr e,
                  ValidationInput.Preimages = validationEntry.Preimages e,
                  ValidationInput.UserWasms = wasms,
                  ValidationInput.BatchInfo = validationEntry.BatchInfo e,
                  ValidationInput.DelayedMsg = validationEntry.DelayedMsg e,
                  StartState = Start e,
                  DebugChain = DebugMode (ChainConfig e)\<rparr>))"

text \<open>
  \<^verbatim>\<open>newValidationEntry\<close> (lines 181-229). \<^verbatim>\<open>fullBatchInfo\<close> and \<^verbatim>\<open>msg\<close> are
  pointers: the first is tested against \<^verbatim>\<open>nil\<close>, the second is dereferenced at
  line 210. The fields the struct literal leaves out (\<^verbatim>\<open>UserWasms\<close>,
  \<^verbatim>\<open>DelayedMsg\<close>) have their zero values.
\<close>

definition newValidationEntry ::
  "MessageIndex \<Rightarrow> GoGlobalState \<Rightarrow> GoGlobalState \<Rightarrow> MessageWithMetadata option \<Rightarrow>
   FullBatchInfo option \<Rightarrow> BatchInfo list \<Rightarrow> uint64 \<Rightarrow> ChainConfig \<Rightarrow> error + validationEntry" where
  "newValidationEntry pos start end' msg' fullBatchInfo prevBatches prevDelayed chainConfig =
     (case fullBatchInfo of
        None \<Rightarrow> Inl FullBatchInfoNil
      | Some fbi \<Rightarrow>
          if FullBatchInfo.Number fbi \<noteq> Batch start then
            Inl (WrongBatch (Batch start) (FullBatchInfo.Number fbi))
          else
            let valBatches =
                  \<lparr>BatchInfo.Number = FullBatchInfo.Number fbi, Data = PostedData fbi\<rparr>
                    # prevBatches;
                preimages = copyPreimagesInto Map.empty (FullBatchInfo.Preimages fbi)
            in (case msg' of
                  None \<Rightarrow> Inl (Panic ''nil pointer dereference'')
                | Some m \<Rightarrow>
                    (case (if DelayedMessagesRead m = prevDelayed + 1 then
                             Inr (True, prevDelayed)
                           else if DelayedMessagesRead m \<noteq> prevDelayed then
                             Inl (IllegalDelayedMessage (DelayedMessagesRead m) prevDelayed)
                           else Inr (False, 0)) of
                       Inl err \<Rightarrow> Inl err
                     | Inr (hasDelayed, delayedNum) \<Rightarrow>
                         Inr \<lparr>Stage = ReadyForRecord,
                              validationEntry.Pos = pos,
                              Start = start,
                              End = end',
                              validationEntry.HasDelayedMsg = hasDelayed,
                              validationEntry.DelayedMsgNr = delayedNum,
                              ChainConfig = chainConfig,
                              msg = msg',
                              validationEntry.BatchInfo = valBatches,
                              validationEntry.Preimages = preimages,
                              validationEntry.UserWasms = [],
                              validationEntry.DelayedMsg = []\<rparr>)))"

section \<open>Entry recorder\<close>

text \<open>
  Modelled from the spec: the constant \<^verbatim>\<open>arbutil.Keccak256PreimageType\<close> is not
  under src/; it is the key of the keccak256 preimages, the first of its enumeration.
\<close>

definition Keccak256PreimageType :: PreimageType where
  "Keccak256PreimageType = 0"

text \<open>
  \<^verbatim>\<open>ValidationEntryRecord\<close> (lines 371-405) changes the entry in place and returns
  an error or \<^verbatim>\<open>nil\<close>; the model returns the error (\<open>None\<close> for \<^verbatim>\<open>nil\<close>)
  together with the entry as the call leaves it. The recording step (lines 375-390):
\<close>

definition ValidationEntryRecord_recording ::
  "StatelessBlockValidator \<Rightarrow> validationEntry \<Rightarrow> error + validationEntry" where
  "ValidationEntryRecord_recording v e =
     (if validationEntry.Pos e \<noteq> 0 then
        (case RecordBlockCreation (recorder v) (validationEntry.Pos e) (msg e) of
           Inl err \<Rightarrow> Inl (External err)
         | Inr recording \<Rightarrow>
             if RecordResult.BlockHash recording \<noteq> GoGlobalState.BlockHash (End e) then
               Inl (RecordingFailed (validationEntry.Pos e) (GoGlobalState.BlockHash (End e))
                      (RecordResult.BlockHash recording))
             else
               Inr (e\<lparr>validationEntry.Preimages :=
                         (case RecordResult.Preimages recording of
                            None \<Rightarrow> validationEntry.Preimages e
                          | Some p \<Rightarrow>
                              copyPreimagesInto (validationEntry.Preimages e)
                                [Keccak256PreimageType \<mapsto> p]),
                       validationEntry.UserWasms := RecordResult.UserWasms recording\<rparr>))
      else Inr e)"

text \<open>The delayed-message step (lines 391-401).\<close>

definition ValidationEntryRecord_delayed ::
  "StatelessBlockValidator \<Rightarrow> validationEntry \<Rightarrow> error + validationEntry" where
  "ValidationEntryRecord_delayed v e =
     (if validationEntry.HasDelayedMsg e then
        (case GetDelayedMessageBytes (inboxTracker v) (validationEntry.DelayedMsgNr e) of
           Inl err \<Rightarrow> Inl (DelayedMsgReadFailed (External err))
         | Inr delayedMsg \<Rightarrow> Inr (e\<lparr>validationEntry.DelayedMsg := delayedMsg\<rparr>))
      else Inr e)"

definition ValidationEntryRecord ::
  "StatelessBlockValidator \<Rightarrow> validationEntry \<Rightarrow> error option \<times> validationEntry" where
  "ValidationEntryRecord v e =
     (if Stage e \<noteq> ReadyForRecord then (Some (ShouldBeReadyForRecord (Stage e)), e)
      else
        (case ValidationEntryRecord_recording v e of
           Inl err \<Rightarrow> (Some err, e)
         | Inr e1 \<Rightarrow>
             (case ValidationEntryRecord_delayed v e1 of
                Inl err \<Rightarrow> (Some err, e1)
              | Inr e2 \<Rightarrow> (None, e2\<lparr>msg := None, Stage := Ready\<rparr>))))"

section \<open>Batch assembler\<close>

text \<open>\<^verbatim>\<open>readPostedBatch\<close> (lines 286-296).\<close>

definition readPostedBatch :: "StatelessBlockValidator \<Rightarrow> uint64 \<Rightarrow> error + bytes" where
  "readPostedBatch v batchNum =
     (case GetBatchCount (inboxTracker v) of
        Inl err \<Rightarrow> Inl (External err)
      | Inr batchCount \<Rightarrow>
          if batchCount \<le> batchNum then Inl (PostedBatchNotFound batchNum)
          else
            (case GetSequencerMessageBytes (inboxReader v) batchNum of
               Inl err \<Rightarrow> Inl (External err)
             | Inr (postedData, blockHash) \<Rightarrow> Inr postedData))"

text \<open>\<^verbatim>\<open>strings.HasPrefix\<close> and \<^verbatim>\<open>strings.Contains\<close> of Go's library.\<close>

fun strings_HasPrefix :: "string \<Rightarrow> string \<Rightarrow> bool" where
  "strings_HasPrefix s [] = True"
| "strings_HasPrefix [] (c # cs) = False"
| "strings_HasPrefix (x # xs) (c # cs) = (x = c \<and> strings_HasPrefix xs cs)"

fun strings_Contains :: "string \<Rightarrow> string \<Rightarrow> bool" where
  "strings_Contains [] substr = (substr = [])"
| "strings_Contains (x # xs) substr =
     (strings_HasPrefix (x # xs) substr \<or> strings_Contains xs substr)"

text \<open>
  The loop of \<^verbatim>\<open>readFullBatch\<close> over the data-availability readers
  (lines 325-344), entered only when \<^verbatim>\<open>len(postedData) > 40\<close>. It returns the
  preimages and \<^verbatim>\<open>foundDA\<close>. The first reader that is not \<^verbatim>\<open>nil\<close> and accepts
  the header byte ends the loop; its error is passed on unless it contains the text
  of \<^verbatim>\<open>ErrSeqMsgValidation\<close> and the header byte is a DAS one, when it is only
  logged and the preimages stay as they were.
\<close>

fun readFullBatch_readers ::
  "StatelessBlockValidator \<Rightarrow> DAReader option list \<Rightarrow> uint64 \<Rightarrow> Hash \<Rightarrow> bytes \<Rightarrow> PreimagesMap
     \<Rightarrow> error + (PreimagesMap \<times> bool)" where
  "readFullBatch_readers v [] batchNum batchBlockHash postedData preimages =
     Inr (preimages, False)"
| "readFullBatch_readers v (dapReader # rest) batchNum batchBlockHash postedData preimages =
     (case dapReader of
        None \<Rightarrow> readFullBatch_readers v rest batchNum batchBlockHash postedData preimages
      | Some r \<Rightarrow>
          if IsValidHeaderByte r (postedData ! 40) then
            (case RecoverPayloadFromBatch r batchNum batchBlockHash postedData preimages True of
               Inl err \<Rightarrow>
                 if strings_Contains err (ErrSeqMsgValidation v)
                    \<and> IsDASMessageHeaderByte v (postedData ! 40)
                 then Inr (preimages, True)
                 else Inl (External err)
             | Inr (payload, preimagesRecorded) \<Rightarrow> Inr (preimagesRecorded, True))
          else readFullBatch_readers v rest batchNum batchBlockHash postedData preimages)"

text \<open>
  \<^verbatim>\<open>readFullBatch\<close> (lines 306-358) returns \<^verbatim>\<open>(bool, *FullBatchInfo, error)\<close>:
  on success whether the batch was found, and the batch information or \<^verbatim>\<open>nil\<close>.
\<close>

definition readFullBatch ::
  "StatelessBlockValidator \<Rightarrow> uint64 \<Rightarrow> error + (bool \<times> FullBatchInfo option)" where
  "readFullBatch v batchNum =
     (case GetBatchCount (inboxTracker v) of
        Inl err \<Rightarrow> Inl (External err)
      | Inr batchCount \<Rightarrow>
          if batchCount \<le> batchNum then Inr (False, None)
          else
            (case GetBatchMessageCount (inboxTracker v) batchNum of
               Inl err \<Rightarrow> Inl (External err)
             | Inr batchMsgCount \<Rightarrow>
                 (case GetSequencerMessageBytes (inboxReader v) batchNum of
                    Inl err \<Rightarrow> Inl (External err)
                  | Inr (postedData, batchBlockHash) \<Rightarrow>
                      (case (if length postedData > 40 then
                               readFullBatch_readers v (dapReaders v) batchNum batchBlockHash
                                 postedData Map.empty
                             else Inr (Map.empty, False)) of
                         Inl err \<Rightarrow> Inl err
                       | Inr (preimages, foundDA) \<Rightarrow>
                           Inr (True,
                                Some \<lparr>FullBatchInfo.Number = batchNum,
                                      PostedData = postedData,
                                      MsgCount = batchMsgCount,
                                      FullBatchInfo.Preimages = preimages\<rparr>)))))"

section \<open>Validator orchestrator\<close>

text \<open>\<^verbatim>\<open>BuildGlobalState\<close> (lines 407-414).\<close>

definition BuildGlobalState :: "MessageResult \<Rightarrow> GlobalStatePosition \<Rightarrow> GoGlobalState" where
  "BuildGlobalState res pos =
     \<lparr>GoGlobalState.BlockHash = MessageResult.BlockHash res,
      GoGlobalState.SendRoot = MessageResult.SendRoot res,
      Batch = BatchNumber pos,
      GoGlobalState.PosInBatch = GlobalStatePosition.PosInBatch pos\<rparr>"

text \<open>
  The predecessor's data in \<^verbatim>\<open>CreateReadyValidationEntry\<close> (lines 443-455):
  \<^verbatim>\<open>prevDelayed\<close> and \<^verbatim>\<open>prevResult\<close> keep their zero values when
  \<^verbatim>\<open>pos\<close> is 0.
\<close>

definition CreateReadyValidationEntry_prev ::
  "StatelessBlockValidator \<Rightarrow> MessageIndex \<Rightarrow> error + (uint64 \<times> MessageResult)" where
  "CreateReadyValidationEntry_prev v pos =
     (if pos > 0 then
        (case GetMessage (streamer v) (pos - 1) of
           Inl err \<Rightarrow> Inl (External err)
         | Inr prev \<Rightarrow>
             (case ResultAtMessageIndex (streamer v) (pos - 1) of
                Inl err \<Rightarrow> Inl (External err)
              | Inr prevResult \<Rightarrow> Inr (DelayedMessagesRead prev, prevResult)))
      else Inr (0, \<lparr>MessageResult.BlockHash = 0, MessageResult.SendRoot = 0\<rparr>))"

text \<open>The loop over \<^verbatim>\<open>prevBatchNums\<close> (lines 475-485).\<close>

fun CreateReadyValidationEntry_prevBatches ::
  "StatelessBlockValidator \<Rightarrow> uint64 list \<Rightarrow> BatchInfo list \<Rightarrow> error + BatchInfo list" where
  "CreateReadyValidationEntry_prevBatches v [] prevBatches = Inr prevBatches"
| "CreateReadyValidationEntry_prevBatches v (batchNum # rest) prevBatches =
     (case readPostedBatch v batchNum of
        Inl err \<Rightarrow> Inl err
      | Inr data \<Rightarrow>
          CreateReadyValidationEntry_prevBatches v rest
            (prevBatches @ [\<lparr>BatchInfo.Number = batchNum, Data = data\<rparr>]))"

text \<open>
  \<^verbatim>\<open>CreateReadyValidationEntry\<close> (lines 434-496). The positions are those of the
  method at count \<^verbatim>\<open>pos + 1\<close>.
\<close>

definition CreateReadyValidationEntry ::
  "StatelessBlockValidator \<Rightarrow> MessageIndex \<Rightarrow> error + validationEntry" where
  "CreateReadyValidationEntry v pos =
     (case GetMessage (streamer v) pos of
        Inl err \<Rightarrow> Inl (External err)
      | Inr msg' \<Rightarrow>
     (case ResultAtMessageIndex (streamer v) pos of
        Inl err \<Rightarrow> Inl (External err)
      | Inr result \<Rightarrow>
     (case CreateReadyValidationEntry_prev v pos of
        Inl err \<Rightarrow> Inl err
      | Inr (prevDelayed, prevResult) \<Rightarrow>
     (case StatelessBlockValidator_GlobalStatePositionsAtCount (inboxTracker v) (pos + 1) of
        Inl err \<Rightarrow> Inl (FailedCalculatingPosition err)
      | Inr (startPos, endPos) \<Rightarrow>
          let start = BuildGlobalState prevResult startPos;
              end' = BuildGlobalState result endPos
          in
     (case readFullBatch v (Batch start) of
        Inl err \<Rightarrow> Inl err
      | Inr (found, fullBatchInfo) \<Rightarrow>
          if \<not> found then Inl (BatchNotFound (BatchNumber startPos))
          else
     (case PastBatchesRequired (Message msg') of
        Inl err \<Rightarrow> Inl (External err)
      | Inr prevBatchNums \<Rightarrow>
     (case CreateReadyValidationEntry_prevBatches v prevBatchNums [] of
        Inl err \<Rightarrow> Inl err
      | Inr prevBatches \<Rightarrow>
     (case newValidationEntry pos start end' (Some msg') fullBatchInfo prevBatches prevDelayed
             (StreamerChainConfig (streamer v)) of
        Inl err \<Rightarrow> Inl err
      | Inr entry \<Rightarrow>
     (case ValidationEntryRecord v entry of
        (Some err, entry') \<Rightarrow> Inl err
      | (None, entry') \<Rightarrow> Inr entry')))))))))"

text \<open>
  The launch of \<^verbatim>\<open>ValidateResult\<close> on the Redis validator (lines 506-516): the
  value of \<^verbatim>\<open>run\<close> after it, \<open>None\<close> for \<^verbatim>\<open>nil\<close>.
\<close>

definition ValidateResult_redis ::
  "StatelessBlockValidator \<Rightarrow> validationEntry \<Rightarrow> bool \<Rightarrow> Hash \<Rightarrow> error + ValidationRun option" where
  "ValidateResult_redis v entry useExec moduleRoot =
     (if \<not> useExec then
        (case redisValidator v of
           None \<Rightarrow> Inr None
         | Some redis \<Rightarrow>
             if SpawnerSupportsModule redis moduleRoot then
               (case ToInput entry (StylusArchs redis) of
                  Inl err \<Rightarrow> Inl err
                | Inr input \<Rightarrow> Inr (Launch redis input moduleRoot))
             else Inr None)
      else Inr None)"

text \<open>
  The loop over the execution spawners (lines 518-527): the first spawner that
  supports the module root launches the run and ends the loop.
\<close>

fun ValidateResult_spawners ::
  "ExecutionSpawner list \<Rightarrow> validationEntry \<Rightarrow> Hash \<Rightarrow> error + ValidationRun option" where
  "ValidateResult_spawners [] entry moduleRoot = Inr None"
| "ValidateResult_spawners (spawner # rest) entry moduleRoot =
     (if SpawnerSupportsModule spawner moduleRoot then
        (case ToInput entry (StylusArchs spawner) of
           Inl err \<Rightarrow> Inl err
         | Inr input \<Rightarrow> Inr (Launch spawner input moduleRoot))
      else ValidateResult_spawners rest entry moduleRoot)"

text \<open>Lines 505-528: the run launched for the entry, if any.\<close>

definition ValidateResult_launch ::
  "StatelessBlockValidator \<Rightarrow> validationEntry \<Rightarrow> bool \<Rightarrow> Hash \<Rightarrow> error + ValidationRun option" where
  "ValidateResult_launch v entry useExec moduleRoot =
     (case ValidateResult_redis v entry useExec moduleRoot of
        Inl err \<Rightarrow> Inl err
      | Inr run \<Rightarrow>
          if run = None then ValidateResult_spawners (execSpawners v) entry moduleRoot
          else Inr run)"

text \<open>
  \<^verbatim>\<open>ValidateResult\<close> (lines 498-538) returns
  \<^verbatim>\<open>(bool, *validator.GoGlobalState, error)\<close>.
\<close>

definition ValidateResult ::
  "StatelessBlockValidator \<Rightarrow> MessageIndex \<Rightarrow> bool \<Rightarrow> Hash
     \<Rightarrow> bool \<times> GoGlobalState option \<times> error option" where
  "ValidateResult v pos useExec moduleRoot =
     (case CreateReadyValidationEntry v pos of
        Inl err \<Rightarrow> (False, None, Some err)
      | Inr entry \<Rightarrow>
          (case ValidateResult_launch v entry useExec moduleRoot of
             Inl err \<Rightarrow> (False, None, Some err)
           | Inr None \<Rightarrow> (False, None, Some (ModuleRootNotSupported moduleRoot))
           | Inr (Some run) \<Rightarrow>
               (case Await run of
                  (gsEnd, err) \<Rightarrow>
                    if err \<noteq> None \<or> gsEnd \<noteq> End entry then
                      (False, Some gsEnd, map_option External err)
                    else (True, Some (End entry), None))))"


section \<open>Example collaborators\<close>

text \<open>
  \<open>tracker_3_5\<close> holds two batches, batch 0 with messages 0..2 and batch 1 with
  messages 3..4 (cumulative counts 3 and 5). Every lookup of \<open>tracker_failing\<close>
  fails.
\<close>

definition tracker_3_5 :: InboxTracker where
  "tracker_3_5 =
     \<lparr>GetDelayedMessageBytes = (\<lambda>n. Inl ''no delayed message''),
      GetBatchMessageCount =
        (\<lambda>b. if b = 0 then Inr 3 else if b = 1 then Inr 5 else Inl ''no such batch''),
      GetBatchCount = Inr 2,
      FindInboxBatchContainingMessage =
        (\<lambda>pos. if pos < 3 then Inr (0, True) else if pos < 5 then Inr (1, True)
               else Inr (0, False))\<rparr>"

definition tracker_failing :: InboxTracker where
  "tracker_failing =
     \<lparr>GetDelayedMessageBytes = (\<lambda>n. Inl ''unavailable''),
      GetBatchMessageCount = (\<lambda>b. Inl ''unavailable''),
      GetBatchCount = Inl ''unavailable'',
      FindInboxBatchContainingMessage = (\<lambda>pos. Inl ''unavailable'')\<rparr>"

text \<open>Example messages, states, batches and entries.\<close>

definition example_msg :: "uint64 \<Rightarrow> MessageWithMetadata" where
  "example_msg d =
     \<lparr>Message = \<lparr>L2msg = [], PastBatchesRequired = Inr []\<rparr>, DelayedMessagesRead = d\<rparr>"

definition example_start :: GoGlobalState where
  "example_start =
     \<lparr>GoGlobalState.BlockHash = 0x11, GoGlobalState.SendRoot = 0, Batch = 7,
      GoGlobalState.PosInBatch = 2\<rparr>"

definition example_end :: GoGlobalState where
  "example_end =
     \<lparr>GoGlobalState.BlockHash = 0xBB, GoGlobalState.SendRoot = 0, Batch = 7,
      GoGlobalState.PosInBatch = 3\<rparr>"

definition example_batch :: "uint64 \<Rightarrow> FullBatchInfo" where
  "example_batch n =
     \<lparr>FullBatchInfo.Number = n, PostedData = [1, 2, 3], MsgCount = 9,
      FullBatchInfo.Preimages = Map.empty\<rparr>"

definition example_prevBatches :: "BatchInfo list" where
  "example_prevBatches = [\<lparr>BatchInfo.Number = 5, Data = [9]\<rparr>]"

text \<open>
  An entry for message 2 of \<open>tracker_3_5\<close> (the last message of batch 0), in a given
  stage and with given user wasms; its expected end state has block hash \<open>0xBB\<close>.
\<close>

definition entry_example :: "ValidationEntryStage \<Rightarrow> UserWasms \<Rightarrow> validationEntry" where
  "entry_example st wasms =
     \<lparr>Stage = st,
      validationEntry.Pos = 2,
      Start = \<lparr>GoGlobalState.BlockHash = 0x11, GoGlobalState.SendRoot = 0, Batch = 0,
               GoGlobalState.PosInBatch = 2\<rparr>,
      End = \<lparr>GoGlobalState.BlockHash = 0xBB, GoGlobalState.SendRoot = 0, Batch = 1,
             GoGlobalState.PosInBatch = 0\<rparr>,
      validationEntry.HasDelayedMsg = False,
      validationEntry.DelayedMsgNr = 0,
      ChainConfig = \<lparr>DebugMode = False\<rparr>,
      msg = Some (example_msg 0),
      validationEntry.BatchInfo = [\<lparr>BatchInfo.Number = 0, Data = []\<rparr>],
      validationEntry.Preimages = Map.empty,
      validationEntry.UserWasms = wasms,
      validationEntry.DelayedMsg = []\<rparr>"

text \<open>One contract, compiled for two targets.\<close>

definition wasms_example :: UserWasms where
  "wasms_example = [(0xC0DE, [''wavm'' \<mapsto> [1, 2], ''arm64'' \<mapsto> [3]])]"

text \<open>
  A recorder that reports a given block hash, a streamer whose every message reads no
  delayed message and whose message 2 results in block hash \<open>0xBB\<close> (the others in
  \<open>0x11\<close>), a spawner that supports module
  root 1 only and whose run ends in a given global state, and a validator over
  \<open>tracker_3_5\<close> built from a recorder's block hash and a list of spawners.
\<close>

definition recorder_returning :: "Hash \<Rightarrow> ExecutionRecorder" where
  "recorder_returning h =
     \<lparr>RecordBlockCreation =
        (\<lambda>pos m. Inr \<lparr>RecordResult.Pos = pos, RecordResult.BlockHash = h,
                       RecordResult.Preimages = None, RecordResult.UserWasms = []\<rparr>)\<rparr>"

definition streamer_example :: TransactionStreamer where
  "streamer_example =
     \<lparr>GetMessage = (\<lambda>pos. Inr (example_msg 0)),
      ResultAtMessageIndex =
        (\<lambda>pos. Inr \<lparr>MessageResult.BlockHash = (if pos = 2 then 0xBB else 0x11),
                     MessageResult.SendRoot = 0\<rparr>),
      StreamerChainConfig = \<lparr>DebugMode = False\<rparr>\<rparr>"

definition spawner_returning :: "GoGlobalState \<Rightarrow> ExecutionSpawner" where
  "spawner_returning gs =
     \<lparr>SpawnerSupportsModule = (\<lambda>root. root = 1),
      StylusArchs = [''wavm''],
      Launch = (\<lambda>input root. Some \<lparr>Await = (gs, None)\<rparr>)\<rparr>"

definition validator_example :: "Hash \<Rightarrow> ExecutionSpawner list \<Rightarrow> StatelessBlockValidator" where
  "validator_example h spawners =
     \<lparr>execSpawners = spawners,
      redisValidator = None,
      recorder = recorder_returning h,
      inboxReader = \<lparr>GetSequencerMessageBytes = (\<lambda>b. Inr ([], 0))\<rparr>,
      inboxTracker = tracker_3_5,
      streamer = streamer_example,
      dapReaders = [],
      ErrSeqMsgValidation = ''error validating recovered payload from batch'',
      IsDASMessageHeaderByte = (\<lambda>b. 128 \<le> b)\<rparr>"

section \<open>Properties of the position algebra\<close>

lemma firstInBatch_lookup_zero: "firstInBatch_lookup tracker 0 = Inr 0"
  by (simp add: firstInBatch_lookup_def)

lemma firstInBatch_lookup_iff:
  "firstInBatch_lookup tracker batch = Inr f \<longleftrightarrow>
     (if batch = 0 then f = 0 else GetBatchMessageCount tracker (batch - 1) = Inr f)"
  by (auto simp: firstInBatch_lookup_def word_greater_zero_iff split: sum.splits)

lemma firstInBatch_lookup_Inl_iff:
  "(\<exists>e. firstInBatch_lookup tracker batch = Inl e) \<longleftrightarrow>
     (batch \<noteq> 0 \<and> (\<exists>e. GetBatchMessageCount tracker (batch - 1) = Inl e))"
  by (auto simp: firstInBatch_lookup_def word_greater_zero_iff split: sum.splits)

text \<open>
  Claim C1. Whenever the lookup of the batch's message count succeeds, the lookup for
  the previous batch succeeds (\<open>firstInBatch\<close> being 0 for batch 0),
  \<open>msgCountInBatch \<ge> count\<close> and \<open>firstInBatch < count\<close>, the function returns
  \<open>start = (batch, count - firstInBatch - 1)\<close>, a subtraction that does not wrap, and
  \<open>end = (batch + 1, 0)\<close> if \<open>msgCountInBatch = count\<close>, otherwise
  \<open>end = (batch, posInBatch + 1)\<close>. The end position is the rollover
  \<open>(batch + 1, 0)\<close> if and only if \<open>count\<close> is the batch's message count.
\<close>

theorem C1_positions_at_count:
  assumes "GetBatchMessageCount tracker batch = Inr msgCountInBatch"
    and "if batch = 0 then firstInBatch = 0
         else GetBatchMessageCount tracker (batch - 1) = Inr firstInBatch"
    and "msgCountInBatch \<ge> count" and "firstInBatch < count"
  shows "\<exists>start end. GlobalStatePositionsAtCount tracker count batch = Inr (start, end) \<and>
     start = \<lparr>BatchNumber = batch, GlobalStatePosition.PosInBatch = count - firstInBatch - 1\<rparr> \<and>
     unat (GlobalStatePosition.PosInBatch start) = unat count - unat firstInBatch - 1 \<and>
     (if msgCountInBatch = count then end = \<lparr>BatchNumber = batch + 1, GlobalStatePosition.PosInBatch = 0\<rparr>
      else end = \<lparr>BatchNumber = batch, GlobalStatePosition.PosInBatch = GlobalStatePosition.PosInBatch start + 1\<rparr>) \<and>
     (end = \<lparr>BatchNumber = batch + 1, GlobalStatePosition.PosInBatch = 0\<rparr> \<longleftrightarrow> msgCountInBatch = count)"
proof -
  have f: "firstInBatch_lookup tracker batch = Inr firstInBatch"
    using assms(2) by (simp add: firstInBatch_lookup_iff)
  have u: "unat (count - firstInBatch - 1) = unat count - unat firstInBatch - 1"
    using assms(4) by (simp add: unat_sub word_le_nat_alt word_less_nat_alt)
  show ?thesis
    using assms(1,3,4) f u
    by (simp add: GlobalStatePositionsAtCount_def Let_def not_less not_le)
qed

text \<open>
  The theorem at the last message of batch 0 (count 3, the rollover) and at the first
  message of batch 1 (count 4, no rollover) of \<open>tracker_3_5\<close>.
\<close>

theorem C1_positions_at_count_witness:
  "GetBatchMessageCount tracker_3_5 0 = Inr 3 \<and> (3 :: uint64) \<ge> 3 \<and> (0 :: uint64) < 3 \<and>
   GlobalStatePositionsAtCount tracker_3_5 3 0 =
     Inr (\<lparr>BatchNumber = 0, GlobalStatePosition.PosInBatch = 2\<rparr>, \<lparr>BatchNumber = 1, GlobalStatePosition.PosInBatch = 0\<rparr>) \<and>
   GetBatchMessageCount tracker_3_5 1 = Inr 5 \<and> GetBatchMessageCount tracker_3_5 (1 - 1) = Inr 3 \<and>
   (5 :: uint64) \<ge> 4 \<and> (3 :: uint64) < 4 \<and>
   GlobalStatePositionsAtCount tracker_3_5 4 1 =
     Inr (\<lparr>BatchNumber = 1, GlobalStatePosition.PosInBatch = 0\<rparr>, \<lparr>BatchNumber = 1, GlobalStatePosition.PosInBatch = 1\<rparr>)"
  using C1_positions_at_count [of tracker_3_5 0 3 0 3]
        C1_positions_at_count [of tracker_3_5 1 5 3 4]
  by (auto simp: tracker_3_5_def)

text \<open>
  Claim C9. \<^verbatim>\<open>GlobalStatePositionsAtCount(tracker, count, batch)\<close> returns an
  error exactly when the lookup of the batch's message count fails, or \<open>batch > 0\<close>
  and the lookup for \<open>batch - 1\<close> fails, or both succeed and
  \<open>msgCountInBatch < count\<close> or \<open>firstInBatch \<ge> count\<close>, where \<open>firstInBatch\<close> is 0
  for batch 0 and the message count of \<open>batch - 1\<close> otherwise.
\<close>

theorem C9_failure_conditions:
  "(\<exists>err. GlobalStatePositionsAtCount tracker count batch = Inl err) \<longleftrightarrow>
     (\<exists>e. GetBatchMessageCount tracker batch = Inl e) \<or>
     (batch \<noteq> 0 \<and> (\<exists>e. GetBatchMessageCount tracker (batch - 1) = Inl e)) \<or>
     (\<exists>msgCountInBatch firstInBatch.
        GetBatchMessageCount tracker batch = Inr msgCountInBatch \<and>
        (if batch = 0 then firstInBatch = 0
         else GetBatchMessageCount tracker (batch - 1) = Inr firstInBatch) \<and>
        (msgCountInBatch < count \<or> firstInBatch \<ge> count))"
proof (cases "GetBatchMessageCount tracker batch")
  case (Inl e)
  then show ?thesis by (simp add: GlobalStatePositionsAtCount_def)
next
  case m: (Inr msgCountInBatch)
  show ?thesis
  proof (cases "firstInBatch_lookup tracker batch")
    case (Inl e)
    then have "batch \<noteq> 0 \<and> (\<exists>e. GetBatchMessageCount tracker (batch - 1) = Inl e)"
      using firstInBatch_lookup_Inl_iff [of tracker batch] by blast
    with m Inl show ?thesis by (simp add: GlobalStatePositionsAtCount_def)
  next
    case (Inr firstInBatch)
    then have f: "if batch = 0 then firstInBatch = 0
         else GetBatchMessageCount tracker (batch - 1) = Inr firstInBatch"
      by (simp add: firstInBatch_lookup_iff)
    have "(\<exists>err. GlobalStatePositionsAtCount tracker count batch = Inl err) \<longleftrightarrow>
        (msgCountInBatch < count \<or> firstInBatch \<ge> count)"
      using m Inr by (auto simp: GlobalStatePositionsAtCount_def Let_def)
    with m f show ?thesis by (auto split: if_splits)
  qed
qed

text \<open>
  Claim C3. For every tracker, the method at count 0 fails with the
  "no initial state" error, and at count 1 it returns start \<open>(0,0)\<close> and end
  \<open>(1,0)\<close> with no error.
\<close>

theorem C3_boundary_counts:
  "StatelessBlockValidator_GlobalStatePositionsAtCount tracker 0 = Inl NoInitialState \<and>
   StatelessBlockValidator_GlobalStatePositionsAtCount tracker 1 =
     Inr (\<lparr>BatchNumber = 0, GlobalStatePosition.PosInBatch = 0\<rparr>, \<lparr>BatchNumber = 1, GlobalStatePosition.PosInBatch = 0\<rparr>)"
  by (simp add: StatelessBlockValidator_GlobalStatePositionsAtCount_def
      GlobalStatePosition_zero_def)

text \<open>
  Claim C10. At count 1 the method does not consult the tracker: any two trackers
  give the same result, and a tracker whose every lookup fails (so that it has no
  batch 1 to report) still gives \<open>((0,0), (1,0))\<close> without error.
\<close>

theorem C10_count_one_ignores_tracker:
  "StatelessBlockValidator_GlobalStatePositionsAtCount tracker 1 =
     StatelessBlockValidator_GlobalStatePositionsAtCount tracker' 1 \<and>
   StatelessBlockValidator_GlobalStatePositionsAtCount tracker_failing 1 =
     Inr (\<lparr>BatchNumber = 0, GlobalStatePosition.PosInBatch = 0\<rparr>, \<lparr>BatchNumber = 1, GlobalStatePosition.PosInBatch = 0\<rparr>) \<and>
   GetBatchCount tracker_failing = Inl ''unavailable'' \<and>
   GetBatchMessageCount tracker_failing 1 = Inl ''unavailable'' \<and>
   FindInboxBatchContainingMessage tracker_failing 0 = Inl ''unavailable''"
  by (simp add: StatelessBlockValidator_GlobalStatePositionsAtCount_def
      GlobalStatePosition_zero_def tracker_failing_def)

text \<open>
  Claim C2, as stated, fails. With \<open>positionsForMessage\<close> the method (as in claim C3,
  where its argument 0 fails and its argument 1 is the bootstrap case), the method at
  \<open>pos = 2\<close> on \<open>tracker_3_5\<close> finds batch 0 for message \<open>pos - 1\<close> and returns
  \<open>((0,1), (0,2))\<close>, while \<open>GlobalStatePositionsAtCount\<close> at \<open>pos + 1 = 3\<close> in that
  batch returns \<open>((0,2), (1,0))\<close>.
\<close>

theorem C2_counterexample:
  "FindInboxBatchContainingMessage tracker_3_5 (2 - 1) = Inr (0, True) \<and>
   StatelessBlockValidator_GlobalStatePositionsAtCount tracker_3_5 2 =
     Inr (\<lparr>BatchNumber = 0, GlobalStatePosition.PosInBatch = 1\<rparr>, \<lparr>BatchNumber = 0, GlobalStatePosition.PosInBatch = 2\<rparr>) \<and>
   GlobalStatePositionsAtCount tracker_3_5 (2 + 1) 0 =
     Inr (\<lparr>BatchNumber = 0, GlobalStatePosition.PosInBatch = 2\<rparr>, \<lparr>BatchNumber = 1, GlobalStatePosition.PosInBatch = 0\<rparr>) \<and>
   GlobalStatePositionsAtCount tracker_3_5 (2 + 1) 0 \<noteq>
     StatelessBlockValidator_GlobalStatePositionsAtCount tracker_3_5 2"
  by (simp add: StatelessBlockValidator_GlobalStatePositionsAtCount_def
      GlobalStatePositionsAtCount_def firstInBatch_lookup_def tracker_3_5_def)

text \<open>
  Claim C2, amended. For every count of at least 2 and every tracker that finds the
  batch containing message \<open>count - 1\<close>, the method is
  \<open>GlobalStatePositionsAtCount\<close> at the same count (not at count + 1) in the batch
  found; so whenever it returns \<open>(start, end)\<close>, the batch of \<open>start\<close> is the batch
  found and \<open>GlobalStatePositionsAtCount\<close> at that count and batch returns the same
  \<open>(start, end)\<close>.
\<close>

theorem C2_round_trip_at_count:
  assumes "2 \<le> count"
    and "FindInboxBatchContainingMessage tracker (count - 1) = Inr (batch, True)"
  shows "StatelessBlockValidator_GlobalStatePositionsAtCount tracker count =
           GlobalStatePositionsAtCount tracker count batch \<and>
         (\<forall>start end.
            StatelessBlockValidator_GlobalStatePositionsAtCount tracker count = Inr (start, end) \<longrightarrow>
            BatchNumber start = batch \<and>
            GlobalStatePositionsAtCount tracker count (BatchNumber start) = Inr (start, end))"
proof -
  have "count \<noteq> 0" "count \<noteq> 1" using assms(1) by (auto simp: word_le_nat_alt)
  then have eq: "StatelessBlockValidator_GlobalStatePositionsAtCount tracker count =
           GlobalStatePositionsAtCount tracker count batch"
    using assms(2) by (simp add: StatelessBlockValidator_GlobalStatePositionsAtCount_def)
  have b: "BatchNumber start = batch"
    if "GlobalStatePositionsAtCount tracker count batch = Inr (start, end)" for start "end"
    using that
    by (auto simp: GlobalStatePositionsAtCount_def Let_def split: sum.splits if_splits)
  show ?thesis
  proof (intro conjI allI impI)
    show "StatelessBlockValidator_GlobalStatePositionsAtCount tracker count =
           GlobalStatePositionsAtCount tracker count batch" by (rule eq)
  next
    fix start "end"
    assume "StatelessBlockValidator_GlobalStatePositionsAtCount tracker count = Inr (start, end)"
    then have r: "GlobalStatePositionsAtCount tracker count batch = Inr (start, end)"
      by (simp only: eq)
    show "BatchNumber start = batch" by (rule b [OF r])
    then show "GlobalStatePositionsAtCount tracker count (BatchNumber start) = Inr (start, end)"
      using r by simp
  qed
qed

theorem C2_round_trip_at_count_witness:
  "(2::uint64) \<le> 2 \<and>
   FindInboxBatchContainingMessage tracker_3_5 (2 - 1) = Inr (0, True) \<and>
   StatelessBlockValidator_GlobalStatePositionsAtCount tracker_3_5 2 =
     Inr (\<lparr>BatchNumber = 0, GlobalStatePosition.PosInBatch = 1\<rparr>, \<lparr>BatchNumber = 0, GlobalStatePosition.PosInBatch = 2\<rparr>) \<and>
   GlobalStatePositionsAtCount tracker_3_5 2 0 =
     Inr (\<lparr>BatchNumber = 0, GlobalStatePosition.PosInBatch = 1\<rparr>, \<lparr>BatchNumber = 0, GlobalStatePosition.PosInBatch = 2\<rparr>)"
  using C2_round_trip_at_count [of 2 tracker_3_5 0]
  by (simp add: GlobalStatePositionsAtCount_def firstInBatch_lookup_def tracker_3_5_def)

section \<open>Properties of the validation entry\<close>

text \<open>
  Claim C6. When the batch checks of \<^verbatim>\<open>newValidationEntry\<close> pass (the batch
  information is present and its number is the start batch), the entry has
  \<open>hasDelayedMsg = true\<close> and \<open>delayedMsgNr = prevDelayed\<close> exactly when the
  message's \<open>delayedMessagesRead\<close> is \<open>prevDelayed + 1\<close> (in 64-bit arithmetic);
  when it equals \<open>prevDelayed\<close> the entry has \<open>hasDelayedMsg = false\<close>; for any other
  value the construction fails with the illegal-delayed-message error.
\<close>

theorem C6_delayed_bookkeeping:
  assumes "fullBatchInfo = Some fbi" and "FullBatchInfo.Number fbi = Batch start"
  shows "(DelayedMessagesRead m = prevDelayed + 1 \<longrightarrow>
           (\<exists>e. newValidationEntry pos start end' (Some m) fullBatchInfo prevBatches prevDelayed cc = Inr e
              \<and> validationEntry.HasDelayedMsg e \<and> validationEntry.DelayedMsgNr e = prevDelayed)) \<and>
         (DelayedMessagesRead m = prevDelayed \<longrightarrow>
           (\<exists>e. newValidationEntry pos start end' (Some m) fullBatchInfo prevBatches prevDelayed cc = Inr e
              \<and> \<not> validationEntry.HasDelayedMsg e \<and> validationEntry.DelayedMsgNr e = 0)) \<and>
         (DelayedMessagesRead m \<noteq> prevDelayed + 1 \<and> DelayedMessagesRead m \<noteq> prevDelayed \<longrightarrow>
           newValidationEntry pos start end' (Some m) fullBatchInfo prevBatches prevDelayed cc
             = Inl (IllegalDelayedMessage (DelayedMessagesRead m) prevDelayed)) \<and>
         (\<forall>e. newValidationEntry pos start end' (Some m) fullBatchInfo prevBatches prevDelayed cc = Inr e \<longrightarrow>
           (validationEntry.HasDelayedMsg e \<longleftrightarrow> DelayedMessagesRead m = prevDelayed + 1))"
  using assms by (auto simp: newValidationEntry_def Let_def)

text \<open>
  The theorem at \<open>prevDelayed = 4\<close> with 6 (illegal), 5 (one more) and 4 (equal)
  delayed messages read.
\<close>

theorem C6_delayed_bookkeeping_witness:
  "FullBatchInfo.Number (example_batch 7) = Batch example_start \<and>
   newValidationEntry 30 example_start example_end (Some (example_msg 6)) (Some (example_batch 7))
      example_prevBatches 4 \<lparr>DebugMode = False\<rparr> = Inl (IllegalDelayedMessage 6 4) \<and>
   (\<exists>e. newValidationEntry 30 example_start example_end (Some (example_msg 5)) (Some (example_batch 7))
      example_prevBatches 4 \<lparr>DebugMode = False\<rparr> = Inr e \<and> validationEntry.HasDelayedMsg e \<and> validationEntry.DelayedMsgNr e = 4) \<and>
   (\<exists>e. newValidationEntry 30 example_start example_end (Some (example_msg 4)) (Some (example_batch 7))
      example_prevBatches 4 \<lparr>DebugMode = False\<rparr> = Inr e \<and> \<not> validationEntry.HasDelayedMsg e)"
  using C6_delayed_bookkeeping [of "Some (example_batch 7)" "example_batch 7" example_start "example_msg 6" 4 30 example_end example_prevBatches "\<lparr>DebugMode = False\<rparr>"]
    C6_delayed_bookkeeping [of "Some (example_batch 7)" "example_batch 7" example_start "example_msg 5" 4 30 example_end example_prevBatches "\<lparr>DebugMode = False\<rparr>"]
    C6_delayed_bookkeeping [of "Some (example_batch 7)" "example_batch 7" example_start "example_msg 4" 4 30 example_end example_prevBatches "\<lparr>DebugMode = False\<rparr>"]
  by (auto simp: example_batch_def example_start_def example_msg_def)

text \<open>
  Claim C8. \<^verbatim>\<open>newValidationEntry\<close> fails when the batch information is absent
  and fails when its number is not the start batch. An entry it returns is in stage
  ReadyForRecord, and its batch list is the pair (number, posted data) of the batch
  information followed by the given previous batches in order, so that the number of
  its first element is the start batch.
\<close>

theorem C8_batch_consistency:
  "newValidationEntry pos start end' msg' None prevBatches prevDelayed cc = Inl FullBatchInfoNil \<and>
   (FullBatchInfo.Number fbi \<noteq> Batch start \<longrightarrow>
      newValidationEntry pos start end' msg' (Some fbi) prevBatches prevDelayed cc
        = Inl (WrongBatch (Batch start) (FullBatchInfo.Number fbi))) \<and>
   (\<forall>e. newValidationEntry pos start end' msg' fullBatchInfo prevBatches prevDelayed cc = Inr e \<longrightarrow>
      Stage e = ReadyForRecord \<and>
      (\<exists>info. fullBatchInfo = Some info \<and>
         validationEntry.BatchInfo e =
           \<lparr>BatchInfo.Number = FullBatchInfo.Number info, Data = PostedData info\<rparr> # prevBatches) \<and>
      BatchInfo.Number (validationEntry.BatchInfo e ! 0) = Batch (Start e) \<and>
      Start e = start)"
  by (auto simp: newValidationEntry_def Let_def split: option.splits if_splits sum.splits)

theorem C8_batch_consistency_witness:
  "newValidationEntry 30 example_start example_end (Some (example_msg 4)) (Some (example_batch 8))
      example_prevBatches 4 \<lparr>DebugMode = False\<rparr> = Inl (WrongBatch 7 8) \<and>
   (\<exists>e. newValidationEntry 30 example_start example_end (Some (example_msg 4)) (Some (example_batch 7))
      example_prevBatches 4 \<lparr>DebugMode = False\<rparr> = Inr e \<and> Stage e = ReadyForRecord \<and>
      validationEntry.BatchInfo e = [\<lparr>BatchInfo.Number = 7, Data = [1, 2, 3]\<rparr>, \<lparr>BatchInfo.Number = 5, Data = [9]\<rparr>])"
  using C8_batch_consistency [of 30 example_start example_end "Some (example_msg 4)" example_prevBatches 4 "\<lparr>DebugMode = False\<rparr>" "example_batch 8" "Some (example_batch 7)"]
  by (simp add: example_batch_def example_start_def example_msg_def example_prevBatches_def newValidationEntry_def Let_def)

section \<open>Properties of the entry recorder\<close>

lemma ValidationEntryRecord_recording_keeps:
  "ValidationEntryRecord_recording v e = Inr e1 \<Longrightarrow> Stage e1 = Stage e \<and> msg e1 = msg e"
  unfolding ValidationEntryRecord_recording_def
  by (cases "validationEntry.Pos e = 0";
      cases "RecordBlockCreation (recorder v) (validationEntry.Pos e) (msg e)")
     (auto split: if_splits)

lemma ValidationEntryRecord_cases:
  "(Stage e \<noteq> ReadyForRecord \<and>
      ValidationEntryRecord v e = (Some (ShouldBeReadyForRecord (Stage e)), e)) \<or>
   (Stage e = ReadyForRecord \<and>
      (\<exists>err. ValidationEntryRecord_recording v e = Inl err \<and>
             ValidationEntryRecord v e = (Some err, e))) \<or>
   (Stage e = ReadyForRecord \<and>
      (\<exists>e1 err. ValidationEntryRecord_recording v e = Inr e1 \<and>
             ValidationEntryRecord_delayed v e1 = Inl err \<and>
             ValidationEntryRecord v e = (Some err, e1))) \<or>
   (Stage e = ReadyForRecord \<and>
      (\<exists>e1 e2. ValidationEntryRecord_recording v e = Inr e1 \<and>
             ValidationEntryRecord_delayed v e1 = Inr e2 \<and>
             ValidationEntryRecord v e = (None, e2\<lparr>msg := None, Stage := Ready\<rparr>)))"
proof (cases "Stage e = ReadyForRecord")
  case False
  then show ?thesis by (simp add: ValidationEntryRecord_def)
next
  case st: True
  show ?thesis
  proof (cases "ValidationEntryRecord_recording v e")
    case (Inl err)
    with st show ?thesis by (simp add: ValidationEntryRecord_def)
  next
    case r: (Inr e1)
    show ?thesis
    proof (cases "ValidationEntryRecord_delayed v e1")
      case (Inl err)
      with st r show ?thesis by (simp add: ValidationEntryRecord_def)
    next
      case (Inr e2)
      with st r show ?thesis by (simp add: ValidationEntryRecord_def)
    qed
  qed
qed

text \<open>
  Claim C4. \<^verbatim>\<open>ValidationEntryRecord\<close> fails, leaving the entry as it is, when the
  stage is not ReadyForRecord. For an entry in stage ReadyForRecord with
  \<open>pos \<noteq> 0\<close> whose recording has a block hash other than the entry's end block
  hash, it returns the hash-mismatch error and leaves the entry as it is, so that the
  entry is not Ready. When it returns no error the stage has become Ready and the
  message reference is cleared; when it returns an error the stage and the message
  reference are unchanged.
\<close>

theorem C4_record_entry:
  "(Stage e \<noteq> ReadyForRecord \<longrightarrow>
      ValidationEntryRecord v e = (Some (ShouldBeReadyForRecord (Stage e)), e)) \<and>
   (Stage e = ReadyForRecord \<and> validationEntry.Pos e \<noteq> 0 \<and>
    RecordBlockCreation (recorder v) (validationEntry.Pos e) (msg e) = Inr recording \<and>
    RecordResult.BlockHash recording \<noteq> GoGlobalState.BlockHash (End e) \<longrightarrow>
      ValidationEntryRecord v e =
        (Some (RecordingFailed (validationEntry.Pos e) (GoGlobalState.BlockHash (End e))
                 (RecordResult.BlockHash recording)), e) \<and>
      Stage (snd (ValidationEntryRecord v e)) \<noteq> Ready) \<and>
   (fst (ValidationEntryRecord v e) = None \<longrightarrow>
      Stage e = ReadyForRecord \<and>
      Stage (snd (ValidationEntryRecord v e)) = Ready \<and>
      msg (snd (ValidationEntryRecord v e)) = None) \<and>
   (fst (ValidationEntryRecord v e) \<noteq> None \<longrightarrow>
      Stage (snd (ValidationEntryRecord v e)) = Stage e \<and>
      msg (snd (ValidationEntryRecord v e)) = msg e)"
proof (intro conjI impI)
  show "ValidationEntryRecord v e = (Some (ShouldBeReadyForRecord (Stage e)), e)"
    if "Stage e \<noteq> ReadyForRecord"
    using that by (simp add: ValidationEntryRecord_def)
next
  assume a: "Stage e = ReadyForRecord \<and> validationEntry.Pos e \<noteq> 0 \<and>
    RecordBlockCreation (recorder v) (validationEntry.Pos e) (msg e) = Inr recording \<and>
    RecordResult.BlockHash recording \<noteq> GoGlobalState.BlockHash (End e)"
  then have "ValidationEntryRecord_recording v e =
      Inl (RecordingFailed (validationEntry.Pos e) (GoGlobalState.BlockHash (End e))
                 (RecordResult.BlockHash recording))"
    by (simp add: ValidationEntryRecord_recording_def)
  with a show m: "ValidationEntryRecord v e =
      (Some (RecordingFailed (validationEntry.Pos e) (GoGlobalState.BlockHash (End e))
               (RecordResult.BlockHash recording)), e)"
    by (simp add: ValidationEntryRecord_def)
  show "Stage (snd (ValidationEntryRecord v e)) \<noteq> Ready"
    using a by (simp add: m)
next
  assume ok: "fst (ValidationEntryRecord v e) = None"
  with ValidationEntryRecord_cases [of e v]
  obtain e1 e2 where st: "Stage e = ReadyForRecord"
    and res: "ValidationEntryRecord v e = (None, e2\<lparr>msg := None, Stage := Ready\<rparr>)"
    by auto
  show "Stage e = ReadyForRecord" by (rule st)
  show "Stage (snd (ValidationEntryRecord v e)) = Ready" by (simp add: res)
  show "msg (snd (ValidationEntryRecord v e)) = None" by (simp add: res)
next
  assume bad: "fst (ValidationEntryRecord v e) \<noteq> None"
  have "Stage (snd (ValidationEntryRecord v e)) = Stage e \<and>
        msg (snd (ValidationEntryRecord v e)) = msg e"
    using ValidationEntryRecord_cases [of e v] bad
      ValidationEntryRecord_recording_keeps [of v e]
    by (elim disjE conjE exE) simp_all
  then show "Stage (snd (ValidationEntryRecord v e)) = Stage e"
    and "msg (snd (ValidationEntryRecord v e)) = msg e" by simp_all
qed

text \<open>
  The theorem on the example entry: in stage Ready the call fails; with a recorder
  reporting \<open>0xAA\<close> against the expected \<open>0xBB\<close> it fails with the mismatch; with a
  recorder reporting \<open>0xBB\<close> it succeeds.
\<close>

theorem C4_record_entry_witness:
  "Stage (entry_example Ready []) \<noteq> ReadyForRecord \<and>
   ValidationEntryRecord (validator_example 0xAA []) (entry_example Ready []) =
     (Some (ShouldBeReadyForRecord Ready), entry_example Ready []) \<and>
   validationEntry.Pos (entry_example ReadyForRecord []) \<noteq> 0 \<and>
   RecordBlockCreation (recorder (validator_example 0xAA [])) 2 (Some (example_msg 0)) =
     Inr \<lparr>RecordResult.Pos = 2, RecordResult.BlockHash = 0xAA,
         RecordResult.Preimages = None, RecordResult.UserWasms = []\<rparr> \<and>
   GoGlobalState.BlockHash (End (entry_example ReadyForRecord [])) = 0xBB \<and>
   ValidationEntryRecord (validator_example 0xAA []) (entry_example ReadyForRecord []) =
     (Some (RecordingFailed 2 0xBB 0xAA), entry_example ReadyForRecord []) \<and>
   Stage (snd (ValidationEntryRecord (validator_example 0xAA []) (entry_example ReadyForRecord []))) \<noteq> Ready \<and>
   fst (ValidationEntryRecord (validator_example 0xBB []) (entry_example ReadyForRecord [])) = None \<and>
   Stage (snd (ValidationEntryRecord (validator_example 0xBB []) (entry_example ReadyForRecord []))) = Ready \<and>
   msg (snd (ValidationEntryRecord (validator_example 0xBB []) (entry_example ReadyForRecord []))) = None"
proof -
  let ?rec = "\<lparr>RecordResult.Pos = 2, RecordResult.BlockHash = 0xAA,
         RecordResult.Preimages = None, RecordResult.UserWasms = []\<rparr>"
  have f: "Stage (entry_example Ready []) = Ready" "Stage (entry_example ReadyForRecord []) = ReadyForRecord"
    "validationEntry.Pos (entry_example ReadyForRecord []) = 2"
    "msg (entry_example ReadyForRecord []) = Some (example_msg 0)"
    "GoGlobalState.BlockHash (End (entry_example ReadyForRecord [])) = 0xBB"
    by (simp_all add: entry_example_def)
  have r: "RecordBlockCreation (recorder (validator_example 0xAA [])) 2 (Some (example_msg 0)) = Inr ?rec"
    by (simp add: validator_example_def recorder_returning_def)
  have p1: "ValidationEntryRecord (validator_example 0xAA []) (entry_example Ready []) =
     (Some (ShouldBeReadyForRecord Ready), entry_example Ready [])"
    using C4_record_entry [of "entry_example Ready []" "validator_example 0xAA []"] f(1)
    by simp
  have p2: "ValidationEntryRecord (validator_example 0xAA []) (entry_example ReadyForRecord []) =
     (Some (RecordingFailed 2 0xBB 0xAA), entry_example ReadyForRecord []) \<and>
    Stage (snd (ValidationEntryRecord (validator_example 0xAA []) (entry_example ReadyForRecord []))) \<noteq> Ready"
    using C4_record_entry [of "entry_example ReadyForRecord []" "validator_example 0xAA []" ?rec] f r
    by simp
  have ok: "fst (ValidationEntryRecord (validator_example 0xBB []) (entry_example ReadyForRecord [])) = None"
    by (simp add: ValidationEntryRecord_def ValidationEntryRecord_recording_def
        ValidationEntryRecord_delayed_def validator_example_def recorder_returning_def
        entry_example_def)
  have p3: "Stage (snd (ValidationEntryRecord (validator_example 0xBB []) (entry_example ReadyForRecord []))) = Ready \<and>
    msg (snd (ValidationEntryRecord (validator_example 0xBB []) (entry_example ReadyForRecord []))) = None"
    using C4_record_entry [of "entry_example ReadyForRecord []" "validator_example 0xBB []"] ok
    by blast
  show ?thesis using f r p1 p2 ok p3 by simp
qed

section \<open>Properties of the conversion to an input\<close>

lemma ToInput_init_apply:
  "ToInput_init archs res a = (if a \<in> set archs then Some Map.empty else res a)"
  by (induction archs arbitrary: res) auto

lemma ToInput_archs_missing:
  assumes "set archs \<subseteq> dom res" and "\<exists>a \<in> set archs. asmMap a = None"
  shows "\<exists>a \<in> set archs. ToInput_archs hash asmMap archs res = Inl (StylusArchNotSupported a)"
  using assms
proof (induction archs arbitrary: res)
  case Nil
  then show ?case by simp
next
  case (Cons x archs)
  show ?case
  proof (cases "asmMap x")
    case None
    then show ?thesis by simp
  next
    case (Some asm)
    from Cons.prems(1) obtain m where m: "res x = Some m" by auto
    have sub: "set archs \<subseteq> dom (res(x \<mapsto> m(hash \<mapsto> asm)))"
      using Cons.prems(1) by auto
    have ex: "\<exists>a \<in> set archs. asmMap a = None"
      using Cons.prems(2) Some by auto
    from Cons.IH [OF sub ex] obtain a where a: "a \<in> set archs"
      "ToInput_archs hash asmMap archs (res(x \<mapsto> m(hash \<mapsto> asm))) =
         Inl (StylusArchNotSupported a)"
      by blast
    have "ToInput_archs hash asmMap (x # archs) res = Inl (StylusArchNotSupported a)"
      using Some m a(2) by simp
    moreover have "a \<in> set (x # archs)" using a(1) by simp
    ultimately show ?thesis by blast
  qed
qed

lemma ToInput_archs_complete:
  assumes "set archs \<subseteq> dom res" and "\<forall>a \<in> set archs. asmMap a \<noteq> None"
  shows "\<exists>res'. ToInput_archs hash asmMap archs res = Inr res' \<and>
           (\<forall>a. a \<notin> set archs \<longrightarrow> res' a = res a) \<and>
           (\<forall>a \<in> set archs. \<exists>m asm. res a = Some m \<and> asmMap a = Some asm \<and>
                                res' a = Some (m(hash \<mapsto> asm)))"
  using assms
proof (induction archs arbitrary: res)
  case Nil
  then show ?case by simp
next
  case (Cons x archs)
  from Cons.prems(2) obtain asm where asm: "asmMap x = Some asm" by auto
  from Cons.prems(1) obtain m where m: "res x = Some m" by auto
  let ?res1 = "res(x \<mapsto> m(hash \<mapsto> asm))"
  have sub: "set archs \<subseteq> dom ?res1" using Cons.prems(1) by auto
  have all: "\<forall>a \<in> set archs. asmMap a \<noteq> None" using Cons.prems(2) by auto
  from Cons.IH [OF sub all] obtain res' where
    r: "ToInput_archs hash asmMap archs ?res1 = Inr res'"
    and out: "\<forall>a. a \<notin> set archs \<longrightarrow> res' a = ?res1 a"
    and ins: "\<forall>a \<in> set archs. \<exists>m' asm'. ?res1 a = Some m' \<and> asmMap a = Some asm' \<and>
                                res' a = Some (m'(hash \<mapsto> asm'))"
    by blast
  have step: "ToInput_archs hash asmMap (x # archs) res = Inr res'"
    using asm m r by simp
  have a1: "\<forall>a. a \<notin> set (x # archs) \<longrightarrow> res' a = res a"
    using out by auto
  have a2: "\<exists>m' asm'. res a = Some m' \<and> asmMap a = Some asm' \<and> res' a = Some (m'(hash \<mapsto> asm'))"
    if "a \<in> set (x # archs)" for a
  proof (cases "a \<in> set archs")
    case True
    with ins obtain m' asm' where h: "?res1 a = Some m'" "asmMap a = Some asm'"
      "res' a = Some (m'(hash \<mapsto> asm'))" by blast
    show ?thesis
    proof (cases "a = x")
      case True
      with h asm m show ?thesis by auto
    next
      case False
      with h show ?thesis by auto
    qed
  next
    case False
    with that have ax: "a = x" by simp
    with False out have "res' a = ?res1 a" by blast
    with ax asm m show ?thesis by simp
  qed
  from step a1 a2 show ?case by blast
qed

lemma ToInput_wasms_missing:
  assumes "set archs \<subseteq> dom res"
    and "\<exists>(hash, asmMap) \<in> set wasms. \<exists>a \<in> set archs. asmMap a = None"
  shows "\<exists>a \<in> set archs. ToInput_wasms wasms archs res = Inl (StylusArchNotSupported a)"
  using assms
proof (induction wasms arbitrary: res)
  case Nil
  then show ?case by simp
next
  case (Cons p wasms)
  obtain hash asmMap where p: "p = (hash, asmMap)" by (cases p)
  show ?case
  proof (cases "\<exists>a \<in> set archs. asmMap a = None")
    case True
    from ToInput_archs_missing [OF Cons.prems(1) True, of hash] p show ?thesis by auto
  next
    case False
    then have all: "\<forall>a \<in> set archs. asmMap a \<noteq> None" by simp
    from ToInput_archs_complete [OF Cons.prems(1) all, of hash] obtain res' where
      r: "ToInput_archs hash asmMap archs res = Inr res'"
      and out: "\<forall>a. a \<notin> set archs \<longrightarrow> res' a = res a"
      and ins: "\<forall>a \<in> set archs. \<exists>m asm. res a = Some m \<and> asmMap a = Some asm \<and>
                                res' a = Some (m(hash \<mapsto> asm))"
      by blast
    have sub: "set archs \<subseteq> dom res'" using ins by auto
    have ex: "\<exists>(hash, asmMap) \<in> set wasms. \<exists>a \<in> set archs. asmMap a = None"
      using Cons.prems(2) False p by auto
    from Cons.IH [OF sub ex] r p show ?thesis by simp
  qed
qed

lemma ToInput_wasms_complete:
  assumes "set archs \<subseteq> dom res" and "distinct (map fst wasms)"
    and "\<forall>(hash, asmMap) \<in> set wasms. \<forall>a \<in> set archs. asmMap a \<noteq> None"
  shows "\<exists>res'. ToInput_wasms wasms archs res = Inr res' \<and>
           (\<forall>a. a \<notin> set archs \<longrightarrow> res' a = res a) \<and>
           (\<forall>a \<in> set archs. \<exists>m0 m. res a = Some m0 \<and> res' a = Some m \<and>
              (\<forall>hash. m hash = (case map_of wasms hash of None \<Rightarrow> m0 hash
                                 | Some asmMap \<Rightarrow> asmMap a)))"
  using assms
proof (induction wasms arbitrary: res)
  case Nil
  then show ?case by auto
next
  case (Cons p wasms)
  obtain hash asmMap where p: "p = (hash, asmMap)" by (cases p)
  have all: "\<forall>a \<in> set archs. asmMap a \<noteq> None" using Cons.prems(3) p by auto
  from ToInput_archs_complete [OF Cons.prems(1) all, of hash] obtain res1 where
    r: "ToInput_archs hash asmMap archs res = Inr res1"
    and out: "\<forall>a. a \<notin> set archs \<longrightarrow> res1 a = res a"
    and ins: "\<forall>a \<in> set archs. \<exists>m asm. res a = Some m \<and> asmMap a = Some asm \<and>
                              res1 a = Some (m(hash \<mapsto> asm))"
    by blast
  have sub: "set archs \<subseteq> dom res1" using ins by auto
  have d: "distinct (map fst wasms)" using Cons.prems(2) by simp
  have fresh: "map_of wasms hash = None"
    using Cons.prems(2) p by (simp add: map_of_eq_None_iff)
  have rest: "\<forall>(hash, asmMap) \<in> set wasms. \<forall>a \<in> set archs. asmMap a \<noteq> None"
    using Cons.prems(3) by auto
  from Cons.IH [OF sub d rest] obtain res' where
    r': "ToInput_wasms wasms archs res1 = Inr res'"
    and out': "\<forall>a. a \<notin> set archs \<longrightarrow> res' a = res1 a"
    and ins': "\<forall>a \<in> set archs. \<exists>m0 m. res1 a = Some m0 \<and> res' a = Some m \<and>
              (\<forall>h. m h = (case map_of wasms h of None \<Rightarrow> m0 h | Some asmMap \<Rightarrow> asmMap a))"
    by blast
  have step: "ToInput_wasms (p # wasms) archs res = Inr res'"
    using r r' p by simp
  have a1: "\<forall>a. a \<notin> set archs \<longrightarrow> res' a = res a" using out out' by simp
  have a2: "\<exists>m0 m. res a = Some m0 \<and> res' a = Some m \<and>
              (\<forall>h. m h = (case map_of (p # wasms) h of None \<Rightarrow> m0 h | Some asmMap \<Rightarrow> asmMap a))"
    if a: "a \<in> set archs" for a
  proof -
    from ins a obtain m0 asm where h0: "res a = Some m0" "asmMap a = Some asm"
      "res1 a = Some (m0(hash \<mapsto> asm))" by blast
    from ins' a obtain m1 m where h1': "res1 a = Some m1" "res' a = Some m"
      "\<forall>h. m h = (case map_of wasms h of None \<Rightarrow> m1 h | Some asmMap \<Rightarrow> asmMap a)"
      by blast
    from h1'(1) h0(3) have m1: "m1 = m0(hash \<mapsto> asm)" by simp
    have h1: "res' a = Some m"
      "\<forall>h. m h = (case map_of wasms h of None \<Rightarrow> (m0(hash \<mapsto> asm)) h | Some asmMap \<Rightarrow> asmMap a)"
      using h1'(2,3) unfolding m1 by blast+
    have "m h = (case map_of (p # wasms) h of None \<Rightarrow> m0 h | Some asmMap \<Rightarrow> asmMap a)" for h
      using h1(2) [rule_format, of h] fresh h0(2) p
      by (cases "h = hash") (auto split: option.splits)
    with h0(1) h1(1) show ?thesis by blast
  qed
  from step a1 a2 show ?case by blast
qed


text \<open>
  Claim C7. \<^verbatim>\<open>ToInput\<close> fails on an entry that is not Ready. On a Ready entry it
  fails when the target list is empty and the entry has user wasms; for a non-empty
  target list it fails, naming a listed target, when some code hash lacks code for
  some listed target; otherwise it returns an input whose user wasms hold, for every
  listed target, exactly the pairs of code hash and code that the entry has for
  that target, and nothing for a target that is not listed.
\<close>

theorem C7_ToInput:
  "(Stage e \<noteq> Ready \<longrightarrow> ToInput e stylusArchs = Inl NonReadyEntry) \<and>
   (Stage e = Ready \<and> stylusArchs = [] \<and> validationEntry.UserWasms e \<noteq> [] \<longrightarrow>
      ToInput e stylusArchs = Inl StylusSupportRequired) \<and>
   (Stage e = Ready \<and> stylusArchs \<noteq> [] \<and>
    (\<exists>(hash, asmMap) \<in> set (validationEntry.UserWasms e). \<exists>a \<in> set stylusArchs. asmMap a = None) \<longrightarrow>
      (\<exists>a \<in> set stylusArchs. ToInput e stylusArchs = Inl (StylusArchNotSupported a))) \<and>
   (Stage e = Ready \<and> stylusArchs \<noteq> [] \<and> distinct (map fst (validationEntry.UserWasms e)) \<and>
    (\<forall>(hash, asmMap) \<in> set (validationEntry.UserWasms e). \<forall>a \<in> set stylusArchs. asmMap a \<noteq> None) \<longrightarrow>
      (\<exists>input. ToInput e stylusArchs = Inr input \<and>
         (\<forall>a \<in> set stylusArchs. \<exists>m. ValidationInput.UserWasms input a = Some m \<and>
            (\<forall>hash asm. m hash = Some asm \<longleftrightarrow>
               (\<exists>asmMap. (hash, asmMap) \<in> set (validationEntry.UserWasms e) \<and> asmMap a = Some asm))) \<and>
         (\<forall>a. a \<notin> set stylusArchs \<longrightarrow> ValidationInput.UserWasms input a = None)))"
proof (intro conjI impI)
  show "ToInput e stylusArchs = Inl NonReadyEntry" if "Stage e \<noteq> Ready"
    using that by (simp add: ToInput_def)
next
  show "ToInput e stylusArchs = Inl StylusSupportRequired"
    if "Stage e = Ready \<and> stylusArchs = [] \<and> validationEntry.UserWasms e \<noteq> []"
    using that by (simp add: ToInput_def)
next
  let ?init = "ToInput_init stylusArchs Map.empty"
  have sub: "set stylusArchs \<subseteq> dom ?init"
    by (auto simp: ToInput_init_apply)
  assume a: "Stage e = Ready \<and> stylusArchs \<noteq> [] \<and>
    (\<exists>(hash, asmMap) \<in> set (validationEntry.UserWasms e). \<exists>a \<in> set stylusArchs. asmMap a = None)"
  then have ex: "\<exists>(hash, asmMap) \<in> set (validationEntry.UserWasms e).
      \<exists>a \<in> set stylusArchs. asmMap a = None" by blast
  from ToInput_wasms_missing [OF sub ex] obtain x where x: "x \<in> set stylusArchs"
    "ToInput_wasms (validationEntry.UserWasms e) stylusArchs ?init = Inl (StylusArchNotSupported x)"
    by blast
  have "ToInput e stylusArchs = Inl (StylusArchNotSupported x)"
    using a x(2) by (simp add: ToInput_def)
  with x(1) show "\<exists>a \<in> set stylusArchs. ToInput e stylusArchs = Inl (StylusArchNotSupported a)"
    by blast
next
  let ?init = "ToInput_init stylusArchs Map.empty"
  let ?wasms = "validationEntry.UserWasms e"
  have sub: "set stylusArchs \<subseteq> dom ?init"
    by (auto simp: ToInput_init_apply)
  assume a: "Stage e = Ready \<and> stylusArchs \<noteq> [] \<and> distinct (map fst ?wasms) \<and>
    (\<forall>(hash, asmMap) \<in> set ?wasms. \<forall>a \<in> set stylusArchs. asmMap a \<noteq> None)"
  then have d: "distinct (map fst ?wasms)"
    and all: "\<forall>(hash, asmMap) \<in> set ?wasms. \<forall>a \<in> set stylusArchs. asmMap a \<noteq> None"
    by blast+
  from ToInput_wasms_complete [OF sub d all] obtain res' where
    r: "ToInput_wasms ?wasms stylusArchs ?init = Inr res'"
    and out: "\<forall>a. a \<notin> set stylusArchs \<longrightarrow> res' a = ?init a"
    and ins: "\<forall>a \<in> set stylusArchs. \<exists>m0 m. ?init a = Some m0 \<and> res' a = Some m \<and>
              (\<forall>hash. m hash = (case map_of ?wasms hash of None \<Rightarrow> m0 hash
                                 | Some asmMap \<Rightarrow> asmMap a))"
    by blast
  obtain input where i: "ToInput e stylusArchs = Inr input"
    and u: "ValidationInput.UserWasms input = res'"
    using a r by (simp add: ToInput_def)
  have b1: "\<exists>m. ValidationInput.UserWasms input a = Some m \<and>
            (\<forall>hash asm. m hash = Some asm \<longleftrightarrow>
               (\<exists>asmMap. (hash, asmMap) \<in> set ?wasms \<and> asmMap a = Some asm))"
    if m: "a \<in> set stylusArchs" for a
  proof -
    from ins m obtain m0 m where h: "?init a = Some m0" "res' a = Some m"
      "\<forall>hash. m hash = (case map_of ?wasms hash of None \<Rightarrow> m0 hash | Some asmMap \<Rightarrow> asmMap a)"
      by blast
    from h(1) m have m0: "m0 = Map.empty" by (simp add: ToInput_init_apply)
    have "m hash = Some asm \<longleftrightarrow> (\<exists>asmMap. (hash, asmMap) \<in> set ?wasms \<and> asmMap a = Some asm)"
      for hash asm
    proof (cases "map_of ?wasms hash")
      case None
      then have "\<And>asmMap. (hash, asmMap) \<notin> set ?wasms"
        by (metis map_of_eq_None_iff fst_conv image_eqI)
      with h(3) [rule_format, of hash] None m0 show ?thesis by simp
    next
      case (Some am)
      then have "(hash, asmMap) \<in> set ?wasms \<longleftrightarrow> asmMap = am" for asmMap
        using map_of_is_SomeI [OF d, of hash asmMap] map_of_SomeD [OF Some] by auto
      with h(3) [rule_format, of hash] Some show ?thesis by simp
    qed
    with h(2) u show ?thesis by simp
  qed
  have b2: "\<forall>a. a \<notin> set stylusArchs \<longrightarrow> ValidationInput.UserWasms input a = None"
    using out u by (simp add: ToInput_init_apply)
  from i b1 b2 show "\<exists>input. ToInput e stylusArchs = Inr input \<and>
         (\<forall>a \<in> set stylusArchs. \<exists>m. ValidationInput.UserWasms input a = Some m \<and>
            (\<forall>hash asm. m hash = Some asm \<longleftrightarrow>
               (\<exists>asmMap. (hash, asmMap) \<in> set ?wasms \<and> asmMap a = Some asm))) \<and>
         (\<forall>a. a \<notin> set stylusArchs \<longrightarrow> ValidationInput.UserWasms input a = None)"
    by blast
qed

text \<open>
  The theorem on the example entry with one contract compiled for \<open>wavm\<close> and
  \<open>arm64\<close>: not Ready; Ready with no target; Ready with targets \<open>wavm\<close> and
  \<open>host\<close>, the second of which has no code; Ready with target \<open>wavm\<close>, where the
  input holds the contract's \<open>wavm\<close> code and nothing under \<open>arm64\<close>.
\<close>

theorem C7_ToInput_witness:
  "Stage (entry_example ReadyForRecord wasms_example) \<noteq> Ready \<and>
   ToInput (entry_example ReadyForRecord wasms_example) [''wavm''] = Inl NonReadyEntry \<and>
   Stage (entry_example Ready wasms_example) = Ready \<and>
   validationEntry.UserWasms (entry_example Ready wasms_example) \<noteq> [] \<and>
   ToInput (entry_example Ready wasms_example) [] = Inl StylusSupportRequired \<and>
   (\<exists>(hash, asmMap) \<in> set (validationEntry.UserWasms (entry_example Ready wasms_example)).
      \<exists>a \<in> set [''wavm'', ''host'']. asmMap a = None) \<and>
   (\<exists>a \<in> set [''wavm'', ''host''].
      ToInput (entry_example Ready wasms_example) [''wavm'', ''host''] =
        Inl (StylusArchNotSupported a)) \<and>
   distinct (map fst (validationEntry.UserWasms (entry_example Ready wasms_example))) \<and>
   list_all (\<lambda>(hash, asmMap). list_all (\<lambda>a. asmMap a \<noteq> None) [''wavm''])
     (validationEntry.UserWasms (entry_example Ready wasms_example)) \<and>
   (\<exists>input m. ToInput (entry_example Ready wasms_example) [''wavm''] = Inr input \<and>
      ValidationInput.UserWasms input ''wavm'' = Some m \<and>
      m 0xC0DE = Some [1, 2] \<and> m 0xBEEF = None \<and>
      ValidationInput.UserWasms input ''arm64'' = None)"
proof -
  let ?e = "entry_example Ready wasms_example"
  have f: "Stage (entry_example ReadyForRecord wasms_example) \<noteq> Ready"
    "Stage ?e = Ready" "validationEntry.UserWasms ?e = wasms_example"
    by (simp_all add: entry_example_def)
  have w: "wasms_example \<noteq> []" "distinct (map fst wasms_example)"
    "\<exists>(hash, asmMap) \<in> set wasms_example. \<exists>a \<in> set [''wavm'', ''host'']. asmMap a = None"
    "\<forall>(hash, asmMap) \<in> set wasms_example. \<forall>a \<in> set [''wavm'']. asmMap a \<noteq> None"
    by (simp_all add: wasms_example_def)
  have p1: "ToInput (entry_example ReadyForRecord wasms_example) [''wavm''] = Inl NonReadyEntry"
    using C7_ToInput [of "entry_example ReadyForRecord wasms_example" "[''wavm'']"] f(1)
    by blast
  have p2: "ToInput ?e [] = Inl StylusSupportRequired"
    using C7_ToInput [of ?e "[]"] f(2,3) w(1) by simp
  have p3: "\<exists>a \<in> set [''wavm'', ''host''].
      ToInput ?e [''wavm'', ''host''] = Inl (StylusArchNotSupported a)"
    using C7_ToInput [of ?e "[''wavm'', ''host'']"] f(2,3) w(3) by simp
  have "\<exists>input. ToInput ?e [''wavm''] = Inr input \<and>
         (\<forall>a \<in> set [''wavm'']. \<exists>m. ValidationInput.UserWasms input a = Some m \<and>
            (\<forall>hash asm. m hash = Some asm \<longleftrightarrow>
               (\<exists>asmMap. (hash, asmMap) \<in> set (validationEntry.UserWasms ?e) \<and> asmMap a = Some asm))) \<and>
         (\<forall>a. a \<notin> set [''wavm''] \<longrightarrow> ValidationInput.UserWasms input a = None)"
    using C7_ToInput [of ?e "[''wavm'']"] f(2,3) w(2,4) by simp
  then obtain input m where i: "ToInput ?e [''wavm''] = Inr input"
    and m: "ValidationInput.UserWasms input ''wavm'' = Some m"
    and mm: "\<forall>hash asm. m hash = Some asm \<longleftrightarrow>
               (\<exists>asmMap. (hash, asmMap) \<in> set wasms_example \<and> asmMap ''wavm'' = Some asm)"
    and o: "\<forall>a. a \<notin> set [''wavm''] \<longrightarrow> ValidationInput.UserWasms input a = None"
    unfolding f(3) by auto
  have m1: "m 0xC0DE = Some [1, 2]"
    using mm by (simp add: wasms_example_def)
  have "\<forall>asm. m 0xBEEF \<noteq> Some asm"
    using mm by (simp add: wasms_example_def)
  then have m2: "m 0xBEEF = None" by (cases "m 0xBEEF") auto
  have o1: "ValidationInput.UserWasms input ''arm64'' = None"
    using o by simp
  have p4: "\<exists>input m. ToInput ?e [''wavm''] = Inr input \<and>
      ValidationInput.UserWasms input ''wavm'' = Some m \<and>
      m 0xC0DE = Some [1, 2] \<and> m 0xBEEF = None \<and>
      ValidationInput.UserWasms input ''arm64'' = None"
    using i m m1 m2 o1 by blast
  have w4: "list_all (\<lambda>(hash, asmMap). list_all (\<lambda>a. asmMap a \<noteq> None) [''wavm''])
     wasms_example"
    by (simp add: wasms_example_def)
  show ?thesis
    unfolding f(3) using f(1,2) w(1,2,3) w4 p1 p2 p3 p4 by blast
qed

section \<open>Properties of the orchestrator\<close>

lemma CreateReadyValidationEntry_recorded:
  assumes "CreateReadyValidationEntry v pos = Inr entry"
  shows "\<exists>e. ValidationEntryRecord v e = (None, entry)"
  using assms unfolding CreateReadyValidationEntry_def Let_def
  by (auto split: sum.splits prod.splits option.splits if_splits)

lemma CreateReadyValidationEntry_Ready:
  assumes "CreateReadyValidationEntry v pos = Inr entry"
  shows "Stage entry = Ready"
proof -
  from CreateReadyValidationEntry_recorded [OF assms] obtain e where
    e: "ValidationEntryRecord v e = (None, entry)" by blast
  with ValidationEntryRecord_cases [of e v] obtain e2 where
    "entry = e2\<lparr>msg := None, Stage := Ready\<rparr>" by auto
  then show ?thesis by simp
qed

lemma ValidateResult_spawners_unsupported:
  "\<forall>spawner \<in> set spawners. \<not> SpawnerSupportsModule spawner moduleRoot \<Longrightarrow>
   ValidateResult_spawners spawners entry moduleRoot = Inr None"
  by (induction spawners) auto

lemma ValidateResult_redis_unsupported:
  "useExec \<or> (\<forall>redis. redisValidator v = Some redis \<longrightarrow> \<not> SpawnerSupportsModule redis moduleRoot) \<Longrightarrow>
   ValidateResult_redis v entry useExec moduleRoot = Inr None"
  by (auto simp: ValidateResult_redis_def split: option.splits)

text \<open>
  Claim C5. Let \<^verbatim>\<open>CreateReadyValidationEntry\<close> return an entry; its stage is Ready.
  If the Redis validator is not consulted or does not support the module root (the
  call uses the execution spawners only, or no Redis validator is configured, or it
  does not support the root) and no execution spawner supports it, then
  \<^verbatim>\<open>ValidateResult\<close> fails with the not-supported error carrying the module
  root. If a run is launched and its await succeeds with a global state other than
  the entry's end, the result is \<open>(false, that state, nil)\<close>; if the state is the
  entry's end, the result is \<open>(true, entry.end, nil)\<close>.
\<close>

theorem C5_validate_result:
  assumes "CreateReadyValidationEntry v pos = Inr entry"
  shows "Stage entry = Ready \<and>
    ((useExec \<or> (\<forall>redis. redisValidator v = Some redis \<longrightarrow>
                    \<not> SpawnerSupportsModule redis moduleRoot)) \<and>
     (\<forall>spawner \<in> set (execSpawners v). \<not> SpawnerSupportsModule spawner moduleRoot) \<longrightarrow>
       ValidateResult v pos useExec moduleRoot =
         (False, None, Some (ModuleRootNotSupported moduleRoot))) \<and>
    (\<forall>run gsEnd.
       ValidateResult_launch v entry useExec moduleRoot = Inr (Some run) \<and>
       Await run = (gsEnd, None) \<and> gsEnd \<noteq> End entry \<longrightarrow>
         ValidateResult v pos useExec moduleRoot = (False, Some gsEnd, None)) \<and>
    (\<forall>run.
       ValidateResult_launch v entry useExec moduleRoot = Inr (Some run) \<and>
       Await run = (End entry, None) \<longrightarrow>
         ValidateResult v pos useExec moduleRoot = (True, Some (End entry), None))"
proof (intro conjI impI allI)
  show "Stage entry = Ready" by (rule CreateReadyValidationEntry_Ready [OF assms])
next
  assume a: "(useExec \<or> (\<forall>redis. redisValidator v = Some redis \<longrightarrow>
                    \<not> SpawnerSupportsModule redis moduleRoot)) \<and>
     (\<forall>spawner \<in> set (execSpawners v). \<not> SpawnerSupportsModule spawner moduleRoot)"
  then have "ValidateResult_redis v entry useExec moduleRoot = Inr None"
    and "ValidateResult_spawners (execSpawners v) entry moduleRoot = Inr None"
    using ValidateResult_redis_unsupported [of useExec v moduleRoot entry]
      ValidateResult_spawners_unsupported [of "execSpawners v" moduleRoot entry]
    by blast+
  then have "ValidateResult_launch v entry useExec moduleRoot = Inr None"
    by (simp add: ValidateResult_launch_def)
  with assms show "ValidateResult v pos useExec moduleRoot =
         (False, None, Some (ModuleRootNotSupported moduleRoot))"
    by (simp add: ValidateResult_def)
next
  fix run gsEnd
  assume "ValidateResult_launch v entry useExec moduleRoot = Inr (Some run) \<and>
       Await run = (gsEnd, None) \<and> gsEnd \<noteq> End entry"
  with assms show "ValidateResult v pos useExec moduleRoot = (False, Some gsEnd, None)"
    by (simp add: ValidateResult_def)
next
  fix run
  assume "ValidateResult_launch v entry useExec moduleRoot = Inr (Some run) \<and>
       Await run = (End entry, None)"
  with assms show "ValidateResult v pos useExec moduleRoot = (True, Some (End entry), None)"
    by (simp add: ValidateResult_def)
qed


text \<open>
  The example validator creates, for message 2, the example entry in stage Ready with
  its message cleared; its spawner supports module root 1 only.
\<close>

lemma CreateReady_example:
  "CreateReadyValidationEntry (validator_example 0xBB spawners) 2 =
     Inr ((entry_example Ready [])\<lparr>msg := None\<rparr>)"
  by (simp add: CreateReadyValidationEntry_def CreateReadyValidationEntry_prev_def
      StatelessBlockValidator_GlobalStatePositionsAtCount_def GlobalStatePositionsAtCount_def
      firstInBatch_lookup_def BuildGlobalState_def readFullBatch_def newValidationEntry_def
      ValidationEntryRecord_def ValidationEntryRecord_recording_def
      ValidationEntryRecord_delayed_def copyPreimagesInto_def
      validator_example_def tracker_3_5_def streamer_example_def recorder_returning_def
      example_msg_def entry_example_def Let_def)

lemma launch_example:
  "ValidateResult_launch (validator_example 0xBB [spawner_returning gs])
     ((entry_example Ready [])\<lparr>msg := None\<rparr>) False 1 = Inr (Some \<lparr>Await = (gs, None)\<rparr>)"
  by (simp add: ValidateResult_launch_def ValidateResult_redis_def ToInput_def
      validator_example_def spawner_returning_def entry_example_def)

text \<open>
  The theorem on the example validator: module root 2 is not supported; at module
  root 1 a spawner whose run ends in another state than the entry's end gives
  disagreement with that state, and one whose run ends in the entry's end gives
  agreement.
\<close>

theorem C5_validate_result_witness:
  "CreateReadyValidationEntry (validator_example 0xBB [spawner_returning example_end]) 2 =
     Inr ((entry_example Ready [])\<lparr>msg := None\<rparr>) \<and>
   redisValidator (validator_example 0xBB [spawner_returning example_end]) = None \<and>
   list_all (\<lambda>spawner. \<not> SpawnerSupportsModule spawner 2)
     (execSpawners (validator_example 0xBB [spawner_returning example_end])) \<and>
   ValidateResult (validator_example 0xBB [spawner_returning example_end]) 2 False 2 =
     (False, None, Some (ModuleRootNotSupported 2)) \<and>
   example_end \<noteq> End (entry_example Ready []) \<and>
   ValidateResult (validator_example 0xBB [spawner_returning example_end]) 2 False 1 =
     (False, Some example_end, None) \<and>
   ValidateResult (validator_example 0xBB [spawner_returning (End (entry_example Ready []))]) 2 False 1 =
     (True, Some (End (entry_example Ready [])), None)"
proof -
  let ?entry = "(entry_example Ready [])\<lparr>msg := None\<rparr>"
  let ?bad = "validator_example 0xBB [spawner_returning example_end]"
  let ?good = "validator_example 0xBB [spawner_returning (End (entry_example Ready []))]"
  have e: "End ?entry = End (entry_example Ready [])" by simp
  have ne: "example_end \<noteq> End (entry_example Ready [])"
    by (simp add: example_end_def entry_example_def)
  have r: "redisValidator ?bad = None" by (simp add: validator_example_def)
  have u: "\<forall>spawner \<in> set (execSpawners ?bad). \<not> SpawnerSupportsModule spawner 2"
    by (simp add: validator_example_def spawner_returning_def)
  have aw: "Await \<lparr>Await = (gs, None)\<rparr> = (gs, None)" for gs :: GoGlobalState
    by simp
  note t_bad = C5_validate_result [OF CreateReady_example [of "[spawner_returning example_end]"]]
  note t_good = C5_validate_result
    [OF CreateReady_example [of "[spawner_returning (End (entry_example Ready []))]"]]
  have p1: "ValidateResult ?bad 2 False 2 = (False, None, Some (ModuleRootNotSupported 2))"
    using t_bad [of False 2] r u by simp
  have i2: "ValidateResult_launch ?bad ?entry False 1 = Inr (Some run) \<and>
       Await run = (gsEnd, None) \<and> gsEnd \<noteq> End ?entry \<longrightarrow>
         ValidateResult ?bad 2 False 1 = (False, Some gsEnd, None)" for run gsEnd
    using t_bad [of False 1] by blast
  have p2: "ValidateResult ?bad 2 False 1 = (False, Some example_end, None)"
    using i2 [of "\<lparr>Await = (example_end, None)\<rparr>" example_end]
      launch_example [of example_end] ne
    by simp
  have i3: "ValidateResult_launch ?good ?entry False 1 = Inr (Some run) \<and>
       Await run = (End ?entry, None) \<longrightarrow>
         ValidateResult ?good 2 False 1 = (True, Some (End ?entry), None)" for run
    using t_good [of False 1] by blast
  have p3: "ValidateResult ?good 2 False 1 = (True, Some (End (entry_example Ready [])), None)"
    using i3 [of "\<lparr>Await = (End (entry_example Ready []), None)\<rparr>"]
      launch_example [of "End (entry_example Ready [])"]
    by simp
  show ?thesis
    using CreateReady_example [of "[spawner_returning example_end]"] r u p1 ne p2 p3
    by (simp add: list_all_iff)
qed

end
